theory Spec2Isabelle
  imports Main
begin

section \<open>Python values and exceptions\<close>

text \<open>
  The program is Python: dictionaries returned by the extractor, keyword metadata and
  persisted JSON hold dynamically typed values.  \<open>pyval\<close> is the fragment of Python
  values the modelled code handles; \<open>PObj\<close> is a reference to an entry object (identity
  by allocation, as \<^verbatim>\<open>BasePlaylistEntry.__eq__\<close> is \<^verbatim>\<open>self is other\<close>), and
  \<open>PPlaylist\<close> is a \<^verbatim>\<open>Playlist\<close> object as decoding makes it, with the contents of
  its deque.

  A float is kept as the number it denotes: \<open>Double m e\<close> is \<open>m * 2 ^ e\<close>, beside the two
  infinities (\<open>Infinity True\<close> the negative one) and not-a-number.  The program meets
  floats as durations: the extractor's and the persisted ones may be floats, and
  \<^verbatim>\<open>URLPlaylistEntry._download\<close> stores \<^verbatim>\<open>float(output)\<close> of the probe.
\<close>

datatype pyfloat = Double int int | Infinity bool | NaN

datatype pyval =
    PNone
  | PBool bool
  | PInt int
  | PFloat pyfloat
  | PStr string
  | PList "pyval list"
  | PDict "(string \<times> pyval) list"
  | PObj nat
  | PPlaylist "pyval list"

text \<open>
  Exceptions are values.  \<open>Raised\<close> stands for any other \<^verbatim>\<open>Exception\<close> instance
  raised by code outside the repository (a callback body, the extractor);
  \<open>DownloadError c\<close> is the extractor's error whose \<^verbatim>\<open>exc_info[0]\<close> is \<open>c\<close>.
\<close>

datatype download_cause = UnsupportedError | URLError | Other_cause

datatype exn =
    ValueError
  | KeyError
  | DownloadError download_cause
  | TypeError
  | AttributeError
  | NotImplementedError
  | InvalidDataError
  | ExtractionError
  | OverflowError
  | WrongEntryTypeError pyval
  | Raised string

text \<open>Truthiness, as \<^verbatim>\<open>bool(x)\<close> and \<^verbatim>\<open>if (x):\<close> compute it.\<close>

fun truthy :: "pyval \<Rightarrow> bool" where
  "truthy PNone = False"
| "truthy (PBool b) = b"
| "truthy (PInt n) = (n \<noteq> 0)"
| "truthy (PFloat f) = (case f of Double m e \<Rightarrow> m \<noteq> 0 | other \<Rightarrow> True)"
| "truthy (PStr s) = (s \<noteq> [])"
| "truthy (PList xs) = (xs \<noteq> [])"
| "truthy (PDict kvs) = (kvs \<noteq> [])"
| "truthy (PObj r) = True"
| "truthy (PPlaylist xs) = (xs \<noteq> [])"

text \<open>\<^verbatim>\<open>a or b\<close>\<close>

definition py_or :: "pyval \<Rightarrow> pyval \<Rightarrow> pyval" where
  "py_or a b = (if truthy a then a else b)"

text \<open>\<^verbatim>\<open>d[k]\<close>: a missing key raises KeyError, a value that is no dict raises TypeError.\<close>

fun getitem :: "pyval \<Rightarrow> string \<Rightarrow> exn + pyval" where
  "getitem (PDict kvs) k = (case map_of kvs k of None \<Rightarrow> Inl KeyError | Some v \<Rightarrow> Inr v)"
| "getitem v k = Inl TypeError"

text \<open>\<^verbatim>\<open>d.get(k, default)\<close>: a value that is no dict has no \<^verbatim>\<open>get\<close>.\<close>

fun get :: "pyval \<Rightarrow> string \<Rightarrow> pyval \<Rightarrow> exn + pyval" where
  "get (PDict kvs) k d = (case map_of kvs k of None \<Rightarrow> Inr d | Some v \<Rightarrow> Inr v)"
| "get v k d = Inl AttributeError"

text \<open>\<^verbatim>\<open>s.startswith(p)\<close> and \<^verbatim>\<open>x in s\<close> on strings.\<close>

definition startswith :: "string \<Rightarrow> string \<Rightarrow> bool" where
  "startswith s p = (take (length p) s = p)"

fun is_substring :: "string \<Rightarrow> string \<Rightarrow> bool" where
  "is_substring x [] = (x = [])"
| "is_substring x (c # s) = (take (length x) (c # s) = x \<or> is_substring x s)"

text \<open>\<^verbatim>\<open>k in d\<close>\<close>

fun contains_key :: "pyval \<Rightarrow> string \<Rightarrow> exn + bool" where
  "contains_key (PDict kvs) k = Inr (map_of kvs k \<noteq> None)"
| "contains_key (PList xs) k = Inr (PStr k \<in> set xs)"
| "contains_key (PStr s) k = Inr (is_substring k s)"
| "contains_key (PPlaylist xs) k = Inr (PStr k \<in> set xs)"
| "contains_key v k = Inl TypeError"

text \<open>\<^verbatim>\<open>list(x)\<close> and \<^verbatim>\<open>for item in x\<close>: the elements iteration yields.\<close>

fun iterate :: "pyval \<Rightarrow> exn + pyval list" where
  "iterate (PList xs) = Inr xs"
| "iterate (PDict kvs) = Inr (map (PStr \<circ> fst) kvs)"
| "iterate (PStr s) = Inr (map (\<lambda>c. PStr [c]) s)"
| "iterate (PPlaylist xs) = Inr xs"
| "iterate v = Inl TypeError"

section \<open>Event emitter (lib/event_emitter.py)\<close>

text \<open>
  A callback is a function object.  \<open>Func i\<close> is a plain function, \<open>CoroFunc i\<close> a
  coroutine function (\<^verbatim>\<open>iscoroutinefunction\<close> holds), and \<open>OnceClosure k event cb\<close> is
  the inner function \<^verbatim>\<open>callback\<close> that \<^verbatim>\<open>once\<close> creates: a plain function that has
  captured \<^verbatim>\<open>event\<close> and \<^verbatim>\<open>cb\<close>; \<open>k\<close> numbers the closure, since every call of
  \<^verbatim>\<open>once\<close> makes a new function object.
\<close>

datatype callback =
    Func nat
  | CoroFunc nat
  | OnceClosure nat string callback

fun iscoroutinefunction :: "callback \<Rightarrow> bool" where
  "iscoroutinefunction (CoroFunc i) = True"
| "iscoroutinefunction cb = False"

text \<open>
  The emitter's state: \<^verbatim>\<open>_events\<close> (a \<^verbatim>\<open>defaultdict(list)\<close>), and what running
  callbacks leaves behind: \<open>calls\<close> records every plain function whose body was
  entered, with the payload it got; \<open>scheduled\<close> every coroutine handed to
  \<^verbatim>\<open>ensure_future\<close>; \<open>tracebacks\<close> every exception \<^verbatim>\<open>print_exc\<close> printed.
\<close>

record 'p emitter =
  events :: "string \<rightharpoonup> callback list"
  closures :: nat
  calls :: "(callback \<times> 'p) list"
  scheduled :: "(callback \<times> 'p) list"
  tracebacks :: "exn list"

definition new_emitter :: "'p emitter" where
  "new_emitter = \<lparr>events = Map.empty, closures = 0, calls = [], scheduled = [], tracebacks = []\<rparr>"

text \<open>\<^verbatim>\<open>self._events[event]\<close>: reading a missing key of a defaultdict stores \<^verbatim>\<open>[]\<close> there.\<close>

definition events_at :: "'p emitter \<Rightarrow> string \<Rightarrow> callback list" where
  "events_at em event = (case events em event of None \<Rightarrow> [] | Some l \<Rightarrow> l)"

definition on :: "'p emitter \<Rightarrow> string \<Rightarrow> callback \<Rightarrow> 'p emitter" where
  "on em event cb = em\<lparr>events := (events em)(event \<mapsto> events_at em event @ [cb])\<rparr>"

text \<open>
  \<^verbatim>\<open>off\<close>: \<^verbatim>\<open>list.remove\<close> deletes the first equal element and raises ValueError when
  there is none (the defaultdict has stored the key by then); an emptied list is deleted.
  The first component is the exception raised, if any.
\<close>

definition off :: "'p emitter \<Rightarrow> string \<Rightarrow> callback \<Rightarrow> exn option \<times> 'p emitter" where
  "off em event cb =
     (let l = events_at em event in
      if cb \<in> set l
      then (let l' = remove1 cb l in
            (None, em\<lparr>events := (if l' = [] then (events em)(event := None)
                                   else (events em)(event \<mapsto> l'))\<rparr>))
      else (Some ValueError, em\<lparr>events := (events em)(event \<mapsto> l)\<rparr>))"

definition once :: "'p emitter \<Rightarrow> string \<Rightarrow> callback \<Rightarrow> 'p emitter" where
  "once em event cb =
     on (em\<lparr>closures := Suc (closures em)\<rparr>) event (OnceClosure (closures em) event cb)"

text \<open>
  Calling a function object with payload \<open>p\<close>.  The body of plain function \<open>i\<close> is
  outside the model: \<open>body i p\<close> says whether it raises.  Calling a coroutine function
  only makes a coroutine object.  The closure of \<^verbatim>\<open>once\<close> runs
  \<^verbatim>\<open>self.off(event, cb); return cb(*args, **kwargs)\<close>.
\<close>

fun call :: "(nat \<Rightarrow> 'p \<Rightarrow> exn option) \<Rightarrow> callback \<Rightarrow> 'p \<Rightarrow> 'p emitter \<Rightarrow> exn option \<times> 'p emitter" where
  "call body (Func i) p em = (body i p, em\<lparr>calls := calls em @ [(Func i, p)]\<rparr>)"
| "call body (CoroFunc i) p em = (None, em)"
| "call body (OnceClosure k event cb) p em =
     (case off (em\<lparr>calls := calls em @ [(OnceClosure k event cb, p)]\<rparr>) event cb of
        (Some e, em') \<Rightarrow> (Some e, em')
      | (None, em') \<Rightarrow> call body cb p em')"

text \<open>One round of the loop of \<^verbatim>\<open>emit\<close>: the \<^verbatim>\<open>try\<close> block, then the bare \<^verbatim>\<open>except\<close>.\<close>

definition emit_one :: "(nat \<Rightarrow> 'p \<Rightarrow> exn option) \<Rightarrow> callback \<Rightarrow> 'p \<Rightarrow> 'p emitter \<Rightarrow> exn option \<times> 'p emitter" where
  "emit_one body cb p em =
     (case (if iscoroutinefunction cb
            then (None, em\<lparr>scheduled := scheduled em @ [(cb, p)]\<rparr>)
            else call body cb p em) of
        (None, em') \<Rightarrow> (None, em')
      | (Some e, em') \<Rightarrow> (None, em'\<lparr>tracebacks := tracebacks em' @ [e]\<rparr>))"

fun emit_loop :: "(nat \<Rightarrow> 'p \<Rightarrow> exn option) \<Rightarrow> callback list \<Rightarrow> 'p \<Rightarrow> 'p emitter \<Rightarrow> exn option \<times> 'p emitter" where
  "emit_loop body [] p em = (None, em)"
| "emit_loop body (cb # cbs) p em =
     (case emit_one body cb p em of
        (Some e, em') \<Rightarrow> (Some e, em')
      | (None, em') \<Rightarrow> emit_loop body cbs p em')"

text \<open>\<^verbatim>\<open>emit\<close> iterates over a copy of the list, taken before the first callback runs.\<close>

definition emit :: "(nat \<Rightarrow> 'p \<Rightarrow> exn option) \<Rightarrow> 'p emitter \<Rightarrow> string \<Rightarrow> 'p \<Rightarrow> exn option \<times> 'p emitter" where
  "emit body em event p =
     (case events em event of
        None \<Rightarrow> (None, em)
      | Some l \<Rightarrow> emit_loop body l p em)"

section \<open>Extraction dispatcher (downloader.py)\<close>

text \<open>
  The two \<^verbatim>\<open>YoutubeDL\<close> objects are outside the repository: \<open>unsafe_ytdl\<close> and
  \<open>safe_ytdl\<close> give the outcome of their \<^verbatim>\<open>extract_info(url, download=...)\<close>, run in
  the thread pool, and \<open>prepare_filename\<close> that of \<^verbatim>\<open>ytdl.prepare_filename\<close>.
\<close>

record downloader =
  unsafe_ytdl :: "pyval \<Rightarrow> bool \<Rightarrow> exn + pyval"
  safe_ytdl :: "pyval \<Rightarrow> bool \<Rightarrow> exn + pyval"
  prepare_filename :: "pyval \<Rightarrow> exn + pyval"

text \<open>What a caller may pass as \<^verbatim>\<open>on_error\<close>.\<close>

datatype hook =
    NoHook
  | CoroutineObject nat
  | CoroutineFunction nat
  | PlainCallable nat

fun callable :: "hook \<Rightarrow> bool" where
  "callable (CoroutineFunction h) = True"
| "callable (PlainCallable h) = True"
| "callable h = False"

fun hook_iscoroutinefunction :: "hook \<Rightarrow> bool" where
  "hook_iscoroutinefunction (CoroutineFunction h) = True"
| "hook_iscoroutinefunction h = False"

fun iscoroutine :: "hook \<Rightarrow> bool" where
  "iscoroutine (CoroutineObject h) = True"
| "iscoroutine h = False"

text \<open>What \<^verbatim>\<open>extract_info\<close> hands to the event loop.\<close>

datatype loop_call =
    Ensure_future_call hook exn
  | Ensure_future hook
  | Call_soon_threadsafe hook exn

definition safe_extract_info :: "downloader \<Rightarrow> pyval \<Rightarrow> bool \<Rightarrow> exn + pyval" where
  "safe_extract_info d url download = safe_ytdl d url download"

text \<open>
  \<^verbatim>\<open>extract_info\<close>: the value returned or the exception raised, and the calls handed to
  the loop.  A coroutine that ends without \<^verbatim>\<open>return\<close> returns \<^verbatim>\<open>None\<close>.
\<close>

definition extract_info ::
  "downloader \<Rightarrow> pyval \<Rightarrow> bool \<Rightarrow> hook \<Rightarrow> bool \<Rightarrow> (exn + pyval) \<times> loop_call list" where
  "extract_info d url download on_error retry_on_error =
     (if callable on_error
      then (case unsafe_ytdl d url download of
              Inr result \<Rightarrow> (Inr result, [])
            | Inl e \<Rightarrow>
                (let routed =
                       (if hook_iscoroutinefunction on_error then [Ensure_future_call on_error e]
                        else if iscoroutine on_error then [Ensure_future on_error]
                        else [Call_soon_threadsafe on_error e])
                 in if retry_on_error
                    then (safe_extract_info d url download, routed)
                    else (Inr PNone, routed)))
      else (unsafe_ytdl d url download, []))"

section \<open>Entries (entry.py)\<close>

datatype entry_class = URL | Stream

text \<open>
  The attributes of an entry object.  \<open>url\<close>, \<open>title\<close>, \<open>duration\<close> and the file names
  are stored as they come, unchecked.  A stream entry has no \<open>expected_filename\<close> and no
  \<open>aoptions\<close>; the model keeps \<open>PNone\<close> and \<open>[]\<close> there.  \<open>waiting_futures\<close> holds
  indices into the futures of the world below.
\<close>

record entry =
  cls :: entry_class
  url :: pyval
  title :: pyval
  duration :: pyval
  expected_filename :: pyval
  destination :: pyval
  filename :: pyval
  meta :: "(string \<times> pyval) list"
  aoptions :: string
  is_downloading :: bool
  waiting_futures :: "nat list"

definition URLPlaylistEntry ::
  "pyval \<Rightarrow> pyval \<Rightarrow> pyval \<Rightarrow> pyval \<Rightarrow> (string \<times> pyval) list \<Rightarrow> entry" where
  "URLPlaylistEntry u t dur expected m =
     \<lparr>cls = URL, url = u, title = t, duration = dur, expected_filename = expected,
      destination = PNone, filename = PNone, meta = m, aoptions = ''-vn'',
      is_downloading = False, waiting_futures = []\<rparr>"

definition StreamPlaylistEntry ::
  "pyval \<Rightarrow> pyval \<Rightarrow> pyval \<Rightarrow> (string \<times> pyval) list \<Rightarrow> entry" where
  "StreamPlaylistEntry u t dest m =
     \<lparr>cls = Stream, url = u, title = t, duration = PNone, expected_filename = PNone,
      destination = dest, filename = (if truthy dest then dest else PNone), meta = m,
      aoptions = [], is_downloading = False, waiting_futures = []\<rparr>"

definition is_downloaded :: "entry \<Rightarrow> bool" where
  "is_downloaded e = (if is_downloading e then False else truthy (filename e))"

text \<open>An \<^verbatim>\<open>asyncio.Future\<close>.\<close>

datatype fut = Pending | Cancelled | Result pyval | Exception exn

text \<open>
  A task made by \<^verbatim>\<open>ensure_future(self._download())\<close>, for the entry at a reference.
  It has not run yet, or it is suspended in an \<^verbatim>\<open>await\<close> of the download routine, or
  it is over.  For a stream entry the flag is \<^verbatim>\<open>fallback\<close>.
\<close>

datatype task_state =
    Not_started
  | Awaiting_download
  | Awaiting_extract bool
  | Returned
  | Died exn

datatype task = Task nat task_state

text \<open>
  The objects of a run: entries by reference (\<open>allocated\<close> references are in use), the
  futures made so far and the tasks handed to the loop, in order of creation.
\<close>

record world =
  heap :: "nat \<Rightarrow> entry"
  allocated :: nat
  futures :: "fut list"
  tasks :: "task list"

definition alloc :: "world \<Rightarrow> entry \<Rightarrow> nat \<times> world" where
  "alloc w e = (allocated w, w\<lparr>heap := (heap w)(allocated w := e), allocated := Suc (allocated w)\<rparr>)"

text \<open>\<^verbatim>\<open>get_ready_future\<close>: the index of the future it returns, and the world after.\<close>

definition get_ready_future :: "world \<Rightarrow> nat \<Rightarrow> nat \<times> world" where
  "get_ready_future w r =
     (let future = length (futures w); self = heap w r in
      if is_downloaded self
      then (future, w\<lparr>futures := futures w @ [Result (PObj r)]\<rparr>)
      else (future,
            w\<lparr>heap := (heap w)(r := self\<lparr>waiting_futures := waiting_futures self @ [future]\<rparr>),
              futures := futures w @ [Pending],
              tasks := tasks w @ [Task r Not_started]\<rparr>))"

text \<open>
  \<^verbatim>\<open>_for_each_future\<close> with \<^verbatim>\<open>cb\<close> one of \<^verbatim>\<open>future.set_result(self)\<close> and
  \<^verbatim>\<open>future.set_exception(e)\<close>: a cancelled future is skipped, and setting a future
  that is already done raises, which the loop absorbs.
\<close>

definition settle :: "fut \<Rightarrow> fut list \<Rightarrow> nat \<Rightarrow> fut list" where
  "settle outcome fs future = (if fs ! future = Pending then fs[future := outcome] else fs)"

definition for_each_future :: "world \<Rightarrow> nat \<Rightarrow> fut \<Rightarrow> world" where
  "for_each_future w r outcome =
     (let self = heap w r; waiting = waiting_futures self in
      w\<lparr>heap := (heap w)(r := self\<lparr>waiting_futures := []\<rparr>),
        futures := foldl (settle outcome) (futures w) waiting\<rparr>)"

text \<open>
  The body of \<^verbatim>\<open>URLPlaylistEntry._download\<close> between taking the flag and triggering
  the futures is file and network traffic.  Its outcome is given from outside: the
  \<open>filename\<close> and \<open>duration\<close> it leaves in the entry, and either the \<open>aoptions\<close> it
  computed or the exception it raised.
\<close>

datatype body_outcome =
    Body_done pyval pyval string
  | Body_raised pyval pyval exn

text \<open>
  The first step of a \<^verbatim>\<open>_download\<close> task: the guard of the URL routine and the
  flag, up to the first \<^verbatim>\<open>await\<close>.  Tasks run one at a time and give way only at an
  \<^verbatim>\<open>await\<close>; a body that ends without awaiting is this step with its finish right
  after it.
\<close>

definition download_start :: "world \<Rightarrow> nat \<Rightarrow> world" where
  "download_start w i =
     (case tasks w ! i of
        Task r Not_started \<Rightarrow>
          (let self = heap w r in
           case cls self of
             URL \<Rightarrow>
               if is_downloading self
               then w\<lparr>tasks := (tasks w)[i := Task r Returned]\<rparr>
               else w\<lparr>heap := (heap w)(r := self\<lparr>is_downloading := True\<rparr>),
                      tasks := (tasks w)[i := Task r Awaiting_download]\<rparr>
           | Stream \<Rightarrow>
               w\<lparr>heap := (heap w)(r := self\<lparr>is_downloading := True\<rparr>),
                 tasks := (tasks w)[i := Task r (Awaiting_extract False)]\<rparr>)
      | Task r st \<Rightarrow> w)"

text \<open>The rest of \<^verbatim>\<open>URLPlaylistEntry._download\<close>: trigger the futures, release the flag.\<close>

definition download_finish :: "world \<Rightarrow> nat \<Rightarrow> body_outcome \<Rightarrow> world" where
  "download_finish w i out =
     (case tasks w ! i of
        Task r Awaiting_download \<Rightarrow>
          (case out of
             Body_done fname dur aopt \<Rightarrow>
               (let w1 = w\<lparr>heap := (heap w)(r := (heap w r)\<lparr>filename := fname, duration := dur, aoptions := aopt\<rparr>)\<rparr>;
                    w2 = for_each_future w1 r (Result (PObj r))
                in w2\<lparr>heap := (heap w2)(r := (heap w2 r)\<lparr>is_downloading := False\<rparr>),
                       tasks := (tasks w2)[i := Task r Returned]\<rparr>)
           | Body_raised fname dur e \<Rightarrow>
               (let w1 = w\<lparr>heap := (heap w)(r := (heap w r)\<lparr>filename := fname, duration := dur\<rparr>)\<rparr>;
                    w2 = for_each_future w1 r (Exception e)
                in w2\<lparr>heap := (heap w2)(r := (heap w2 r)\<lparr>is_downloading := False\<rparr>),
                       tasks := (tasks w2)[i := Task r Returned]\<rparr>))
      | Task r st \<Rightarrow> w)"

text \<open>
  \<^verbatim>\<open>StreamPlaylistEntry._download\<close> when its \<^verbatim>\<open>await\<close> of \<^verbatim>\<open>extract_info\<close> is over.
  The inner call \<^verbatim>\<open>self._download(fallback=True)\<close> takes the flag again and awaits the
  extraction of the destination; every \<^verbatim>\<open>finally\<close> releases the flag.
\<close>

definition stream_resume :: "downloader \<Rightarrow> world \<Rightarrow> nat \<Rightarrow> world" where
  "stream_resume d w i =
     (case tasks w ! i of
        Task r (Awaiting_extract fallback) \<Rightarrow>
          (let self = heap w r;
               u = (if fallback then destination self else url self) in
           case fst (extract_info d u False NoHook False) of
             Inl e \<Rightarrow>
               if \<not> fallback \<and> truthy (destination self)
               then w\<lparr>heap := (heap w)(r := self\<lparr>is_downloading := True\<rparr>),
                      tasks := (tasks w)[i := Task r (Awaiting_extract True)]\<rparr>
               else w\<lparr>heap := (heap w)(r := self\<lparr>is_downloading := False\<rparr>),
                      tasks := (tasks w)[i := Task r (Died ExtractionError)]\<rparr>
           | Inr result \<Rightarrow>
               (case getitem result ''url'' of
                  Inl e \<Rightarrow>
                    w\<lparr>heap := (heap w)(r := self\<lparr>is_downloading := False\<rparr>),
                      tasks := (tasks w)[i := Task r (Died e)]\<rparr>
                | Inr v \<Rightarrow>
                    w\<lparr>heap := (heap w)(r := self\<lparr>filename := v, is_downloading := False\<rparr>),
                      tasks := (tasks w)[i := Task r Returned]\<rparr>))
      | Task r st \<Rightarrow> w)"

text \<open>
  What the event loop does next: run the first step of task \<open>i\<close>, or resume task \<open>i\<close>
  whose awaited download or extraction is over.
\<close>

datatype loop_event =
    Start nat
  | Finish nat body_outcome
  | Resume nat

fun loop_step :: "downloader \<Rightarrow> world \<Rightarrow> loop_event \<Rightarrow> world" where
  "loop_step d w (Start i) = (if i < length (tasks w) then download_start w i else w)"
| "loop_step d w (Finish i out) = (if i < length (tasks w) then download_finish w i out else w)"
| "loop_step d w (Resume i) = (if i < length (tasks w) then stream_resume d w i else w)"

definition loop_run :: "downloader \<Rightarrow> world \<Rightarrow> loop_event list \<Rightarrow> world" where
  "loop_run d w evs = foldl (loop_step d) w evs"

text \<open>The downloads of entry \<open>r\<close> that are under way: tasks suspended inside its routine.\<close>

fun in_routine :: "nat \<Rightarrow> task \<Rightarrow> bool" where
  "in_routine r (Task r' Awaiting_download) = (r' = r)"
| "in_routine r (Task r' (Awaiting_extract fallback)) = (r' = r)"
| "in_routine r (Task r' st) = False"

definition in_flight :: "world \<Rightarrow> nat \<Rightarrow> nat" where
  "in_flight w r = length (filter (in_routine r) (tasks w))"

section \<open>Playlist (playlist.py)\<close>

text \<open>
  A playlist is an event emitter with a deque of entries, held by reference.  The
  payload of its one event, \<^verbatim>\<open>entry-added\<close>, is the entry.
\<close>

record playlist =
  entries :: "nat list"
  listeners :: "nat emitter"

text \<open>
  What the playlist's methods reach outside the repository: the downloader, the bodies
  of the registered listeners and \<^verbatim>\<open>utils.get_header\<close> (the response headers of a
  URL).
\<close>

record env =
  dl :: downloader
  listener_body :: "nat \<Rightarrow> nat \<Rightarrow> exn option"
  get_header :: "pyval \<Rightarrow> exn + (string \<times> string) list"

definition new_playlist :: playlist where
  "new_playlist = \<lparr>entries = [], listeners = new_emitter\<rparr>"

definition peek :: "playlist \<Rightarrow> nat option" where
  "peek q = (case entries q of [] \<Rightarrow> None | entry # rest \<Rightarrow> Some entry)"

text \<open>\<^verbatim>\<open>_add_entry\<close>: the exception raised, if any, and the state it leaves.\<close>

definition add_entry_private ::
  "env \<Rightarrow> world \<Rightarrow> playlist \<Rightarrow> nat \<Rightarrow> bool \<Rightarrow> exn option \<times> world \<times> playlist" where
  "add_entry_private env w q entry head =
     (let q1 = q\<lparr>entries := (if head then entry # entries q else entries q @ [entry])\<rparr> in
      case emit (listener_body env) (listeners q1) ''entry-added'' entry of
        (Some e, em) \<Rightarrow> (Some e, w, q1\<lparr>listeners := em\<rparr>)
      | (None, em) \<Rightarrow>
          (let q2 = q1\<lparr>listeners := em\<rparr> in
           if peek q2 = Some entry
           then (None, snd (get_ready_future w entry), q2)
           else (None, w, q2)))"

text \<open>\<^verbatim>\<open>info.get(k, default)\<close> on the fields of a dict.\<close>

definition lookup :: "(string \<times> pyval) list \<Rightarrow> string \<Rightarrow> pyval \<Rightarrow> pyval" where
  "lookup kvs k d = (case map_of kvs k of None \<Rightarrow> d | Some v \<Rightarrow> v)"

text \<open>
  The first part of \<^verbatim>\<open>add_stream_entry\<close>: the \<^verbatim>\<open>info\<close> it works with.
  \<open>info = PNone\<close> is the call without \<^verbatim>\<open>info\<close>, which extracts by itself: an
  unsupported URL and any exception that is no DownloadError leave the placeholder, other
  download errors are raised as ExtractionError.
\<close>

definition stream_info :: "env \<Rightarrow> string \<Rightarrow> pyval \<Rightarrow> exn + pyval" where
  "stream_info env song_url info =
     (if info = PNone
      then (case fst (extract_info (dl env) (PStr song_url) False NoHook False) of
              Inr result \<Rightarrow> Inr result
            | Inl (DownloadError UnsupportedError) \<Rightarrow>
                Inr (PDict [(''title'', PStr song_url), (''extractor'', PNone)])
            | Inl (DownloadError c) \<Rightarrow> Inl ExtractionError
            | Inl e \<Rightarrow> Inr (PDict [(''title'', PStr song_url), (''extractor'', PNone)]))
      else Inr info)"

text \<open>
  \<^verbatim>\<open>add_stream_entry\<close>.  The entry goes to the tail: the method has no \<^verbatim>\<open>head\<close>.
  The result is the entry, its position, and the state after.
\<close>

definition add_stream_entry ::
  "env \<Rightarrow> world \<Rightarrow> playlist \<Rightarrow> string \<Rightarrow> pyval \<Rightarrow> (string \<times> pyval) list
     \<Rightarrow> exn + ((nat \<times> int) \<times> world \<times> playlist)" where
  "add_stream_entry env w q song_url info0 m =
     (case stream_info env song_url info0 of
        Inl e \<Rightarrow> Inl e
      | Inr (PDict info) \<Rightarrow>
          if lookup info ''is_live'' PNone = PNone \<and> lookup info ''extractor'' PNone \<noteq> PStr ''generic''
          then Inl ExtractionError
          else
            (let dest_url = (if truthy (lookup info ''extractor'' PNone)
                             then lookup info ''url'' PNone else PStr song_url);
                 t = (if lookup info ''extractor'' PNone = PStr ''twitch:stream''
                      then lookup info ''description'' PNone
                      else lookup info ''title'' (PStr ''Untitled''));
                 (entry, w1) = alloc w (StreamPlaylistEntry (PStr song_url) t dest_url m)
             in case add_entry_private env w1 q entry False of
                  (Some e, w2, q2) \<Rightarrow> Inl e
                | (None, w2, q2) \<Rightarrow> Inr ((entry, int (length (entries q2))), w2, q2))
      | Inr other \<Rightarrow> Inl AttributeError)"

text \<open>
  The content type check of \<^verbatim>\<open>add_entry\<close> for the generic and Dropbox extractors:
  reject, hand over to stream handling, or go on.
\<close>

datatype content_verdict = Reject | As_stream | Go_on

definition check_content_type :: "env \<Rightarrow> (string \<times> pyval) list \<Rightarrow> content_verdict" where
  "check_content_type env info =
     (let content_type =
            (case getitem (PDict info) ''url'' of
               Inl e \<Rightarrow> None
             | Inr u \<Rightarrow> (case get_header env u of
                           Inl e \<Rightarrow> None
                         | Inr headers \<Rightarrow> map_of headers ''CONTENT-TYPE''))
      in case content_type of
           None \<Rightarrow> Go_on
         | Some ct \<Rightarrow>
             if ct = [] then Go_on
             else if startswith ct ''application/'' \<or> startswith ct ''image/''
             then (if \<not> (is_substring ''/ogg'' ct \<or> is_substring ''/octet-stream'' ct)
                   then Reject else Go_on)
             else if startswith ct ''text/html'' \<and> map_of info ''extractor'' = Some (PStr ''generic'')
             then As_stream
             else Go_on)"

text \<open>\<^verbatim>\<open>add_entry\<close>: the entry, its position, and the state after; or the exception.\<close>

definition add_entry ::
  "env \<Rightarrow> world \<Rightarrow> playlist \<Rightarrow> string \<Rightarrow> bool \<Rightarrow> (string \<times> pyval) list
     \<Rightarrow> exn + ((nat \<times> int) \<times> world \<times> playlist)" where
  "add_entry env w q song_url head m =
     (case fst (extract_info (dl env) (PStr song_url) False NoHook False) of
        Inl e \<Rightarrow> Inl ExtractionError
      | Inr result \<Rightarrow>
          if \<not> truthy result then Inl ExtractionError
          else
            (case result of
               PDict info \<Rightarrow>
                 if lookup info ''_type'' PNone = PStr ''playlist''
                 then Inl (WrongEntryTypeError
                             (py_or (lookup info ''webpage_url'' PNone) (lookup info ''url'' PNone)))
                 else if truthy (lookup info ''is_live'' (PBool False))
                 then add_stream_entry env w q song_url result m
                 else
                   (case getitem result ''extractor'' of
                      Inl e \<Rightarrow> Inl e
                    | Inr extractor \<Rightarrow>
                        (case (if extractor \<in> {PStr ''generic'', PStr ''Dropbox''}
                               then check_content_type env info else Go_on) of
                           Reject \<Rightarrow> Inl ExtractionError
                         | As_stream \<Rightarrow> add_stream_entry env w q song_url result m
                         | Go_on \<Rightarrow>
                             (case prepare_filename (dl env) result of
                                Inl e \<Rightarrow> Inl e
                              | Inr expected \<Rightarrow>
                                  (let (entry, w1) =
                                         alloc w (URLPlaylistEntry (PStr song_url)
                                                    (lookup info ''title'' (PStr ''Untitled''))
                                                    (py_or (lookup info ''duration'' PNone) PNone)
                                                    expected m)
                                   in case add_entry_private env w1 q entry head of
                                        (Some e, w2, q2) \<Rightarrow> Inl e
                                      | (None, w2, q2) \<Rightarrow>
                                          Inr ((entry, if head then 1 else int (length (entries q2))),
                                               w2, q2)))))
             | other \<Rightarrow> Inl AttributeError))"

text \<open>
  One round of the loop of \<^verbatim>\<open>import_from\<close>.  The loop carries the world, the
  playlist, \<^verbatim>\<open>entry_list\<close> and \<^verbatim>\<open>baditems\<close>.  Whatever the \<^verbatim>\<open>try\<close> block raises is
  counted as a bad item.
\<close>

definition import_item ::
  "env \<Rightarrow> string \<Rightarrow> bool \<Rightarrow> (string \<times> pyval) list
     \<Rightarrow> world \<times> playlist \<times> nat list \<times> nat \<Rightarrow> pyval \<Rightarrow> world \<times> playlist \<times> nat list \<times> nat" where
  "import_item env url_field head m st item =
     (case st of (w, q, entry_list, baditems) \<Rightarrow>
        if truthy item
        then (case getitem item url_field of
                Inl e \<Rightarrow> (w, q, entry_list, baditems + 1)
              | Inr u \<Rightarrow>
                 (case get item ''title'' (PStr ''Untitled'') of
                    Inl e \<Rightarrow> (w, q, entry_list, baditems + 1)
                  | Inr t \<Rightarrow>
                     (case get item ''duration'' (PInt 0) of
                        Inl e \<Rightarrow> (w, q, entry_list, baditems + 1)
                      | Inr dur \<Rightarrow>
                         (case prepare_filename (dl env) item of
                            Inl e \<Rightarrow> (w, q, entry_list, baditems + 1)
                          | Inr expected \<Rightarrow>
                             (let (entry, w1) =
                                    alloc w (URLPlaylistEntry u t (py_or dur (PInt 0)) expected m)
                              in case add_entry_private env w1 q entry head of
                                   (Some e, w2, q2) \<Rightarrow> (w2, q2, entry_list, baditems + 1)
                                 | (None, w2, q2) \<Rightarrow> (w2, q2, entry_list @ [entry], baditems))))))
        else (w, q, entry_list, baditems + 1))"

text \<open>
  \<^verbatim>\<open>import_from\<close>: the entries enqueued, the position, and the state after.  The local
  \<^verbatim>\<open>entries\<close> is the reversed copy the method makes for a head import; the loop
  iterates \<^verbatim>\<open>info['entries']\<close>.
\<close>

definition import_from ::
  "env \<Rightarrow> world \<Rightarrow> playlist \<Rightarrow> string \<Rightarrow> bool \<Rightarrow> (string \<times> pyval) list
     \<Rightarrow> exn + ((nat list \<times> int) \<times> world \<times> playlist)" where
  "import_from env w q playlist_url head m =
     (let position = (if head then 1 else int (length (entries q)) + 1) in
      case safe_extract_info (dl env) (PStr playlist_url) False of
        Inl e \<Rightarrow> Inl ExtractionError
      | Inr result \<Rightarrow>
          if \<not> truthy result then Inl ExtractionError
          else
            (case result of
               PDict info \<Rightarrow>
                 (let url_field = (if lookup info ''extractor'' PNone = PStr ''generic''
                                   then ''url'' else ''webpage_url'') in
                  case getitem result ''entries'' of
                    Inl e \<Rightarrow> Inl e
                  | Inr listing \<Rightarrow>
                      (case iterate listing of
                         Inl e \<Rightarrow> Inl e
                       | Inr items \<Rightarrow>
                           (let entries_copy = (if head then rev items else items);
                                (w', q', entry_list, baditems) =
                                   foldl (import_item env url_field head m) (w, q, [], 0) items
                            in Inr ((if head then rev entry_list else entry_list, position), w', q'))))
             | other \<Rightarrow> Inl AttributeError))"

text \<open>
  The coroutine \<^verbatim>\<open>get_next_entry\<close> either returns \<^verbatim>\<open>None\<close> at once or ends in
  \<^verbatim>\<open>return await future\<close>: then it returns what the future is resolved with, when it is.
\<close>

datatype coroutine_end = Return_none | Return_await nat

definition get_next_entry ::
  "world \<Rightarrow> playlist \<Rightarrow> bool \<Rightarrow> coroutine_end \<times> world \<times> playlist" where
  "get_next_entry w q predownload_next =
     (case entries q of
        [] \<Rightarrow> (Return_none, w, q)
      | entry # rest \<Rightarrow>
          (let q1 = q\<lparr>entries := rest\<rparr>;
               w1 = (if predownload_next
                     then (case peek q1 of
                             None \<Rightarrow> w
                           | Some next_entry \<Rightarrow> snd (get_ready_future w next_entry))
                     else w);
               (future, w2) = get_ready_future w1 entry
           in (Return_await future, w2, q1)))"

text \<open>What the awaiting caller gets, once the coroutine is over: a value or an exception.\<close>

definition outcome :: "world \<Rightarrow> coroutine_end \<Rightarrow> (exn + pyval) option" where
  "outcome w c =
     (case c of
        Return_none \<Rightarrow> Some (Inr PNone)
      | Return_await future \<Rightarrow>
          (case futures w ! future of
             Result v \<Rightarrow> Some (Inr v)
           | Exception e \<Rightarrow> Some (Inl e)
           | Cancelled \<Rightarrow> Some (Inl (Raised ''CancelledError''))
           | Pending \<Rightarrow> None))"

text \<open>
  The player is outside the repository's files here; \<^verbatim>\<open>estimate_time_until\<close> reads
  three attributes of it; its progress is a number of seconds.
\<close>

record player =
  is_stopped :: bool
  current_entry :: "nat option"
  progress :: pyval

text \<open>
  \<^verbatim>\<open>itertools.islice(xs, stop)\<close> refuses a stop that is negative or above
  \<^verbatim>\<open>sys.maxsize\<close> (here that of a 64-bit build).
\<close>

definition sys_maxsize :: int where
  "sys_maxsize = 2 ^ 63 - 1"

definition islice :: "'a list \<Rightarrow> int \<Rightarrow> exn + 'a list" where
  "islice xs stop =
     (if stop < 0 \<or> sys_maxsize < stop then Inl ValueError else Inr (take (nat stop) xs))"

text \<open>
  Numbers.  An integer is exact, and \<^verbatim>\<open>bool\<close> is a subclass of \<^verbatim>\<open>int\<close>.  When an
  integer meets a float it is converted to a float first, which raises OverflowError
  when it rounds to \<open>2 ^ 1024\<close> or beyond; adding and subtracting floats never raises.
  The float an operation produces is not computed here (it is IEEE arithmetic, and that
  of \<^verbatim>\<open>sum\<close> depends on the interpreter's version): the record \<open>arith\<close> holds, as
  parameters, the floats the operations produce and what \<^verbatim>\<open>timedelta\<close> makes of a
  float of seconds (OverflowError for one too large or infinite, ValueError for
  not-a-number).
\<close>

fun as_int :: "pyval \<Rightarrow> int option" where
  "as_int (PInt n) = Some n"
| "as_int (PBool b) = Some (if b then 1 else 0)"
| "as_int v = None"

fun number :: "pyval \<Rightarrow> bool" where
  "number (PInt n) = True"
| "number (PBool b) = True"
| "number (PFloat f) = True"
| "number v = False"

definition int_fits_float :: "int \<Rightarrow> bool" where
  "int_fits_float n = (\<bar>n\<bar> < 2 ^ 1024 - 2 ^ 970)"

datatype float_error = Overflow | Not_a_number

fun float_exn :: "float_error \<Rightarrow> exn" where
  "float_exn Overflow = OverflowError"
| "float_exn Not_a_number = ValueError"

record arith =
  float_sum :: "int \<Rightarrow> pyval list \<Rightarrow> pyfloat"
  float_sub :: "pyval \<Rightarrow> pyval \<Rightarrow> pyfloat"
  float_add :: "pyval \<Rightarrow> pyval \<Rightarrow> pyfloat"
  float_timedelta :: "pyfloat \<Rightarrow> float_error option"

text \<open>
  \<^verbatim>\<open>sum(xs)\<close> starts from the integer 0 and is exact as long as the items are integers.
  From the first float on the total is a float: the integers summed so far are converted,
  and so is every later integer, each where it is met; an item that is no number raises
  TypeError there.  \<open>float_sum ar acc xs\<close> is the float that results from the exact
  \<open>acc\<close> and the items \<open>xs\<close>, the first of them a float.
\<close>

fun float_tail :: "pyval list \<Rightarrow> exn option" where
  "float_tail [] = None"
| "float_tail (PFloat f # vs) = float_tail vs"
| "float_tail (v # vs) =
     (case as_int v of
        None \<Rightarrow> Some TypeError
      | Some n \<Rightarrow> if int_fits_float n then float_tail vs else Some OverflowError)"

fun py_sum :: "arith \<Rightarrow> int \<Rightarrow> pyval list \<Rightarrow> exn + pyval" where
  "py_sum ar acc [] = Inr (PInt acc)"
| "py_sum ar acc (PFloat f # vs) =
     (if \<not> int_fits_float acc then Inl OverflowError
      else case float_tail vs of
             Some e \<Rightarrow> Inl e
           | None \<Rightarrow> Inr (PFloat (float_sum ar acc (PFloat f # vs))))"
| "py_sum ar acc (v # vs) =
     (case as_int v of None \<Rightarrow> Inl TypeError | Some n \<Rightarrow> py_sum ar (acc + n) vs)"

text \<open>
  \<^verbatim>\<open>a + b\<close> and \<^verbatim>\<open>a - b\<close>: exact on two integers; on two numbers of which one is a
  float, the float that \<open>float_op\<close> gives, once the other is converted; and TypeError
  when an operand is no number (which is what subtraction does on every value here, and
  addition when one operand is a number: the estimate adds numbers only).
\<close>

definition py_arith ::
  "(int \<Rightarrow> int \<Rightarrow> int) \<Rightarrow> (pyval \<Rightarrow> pyval \<Rightarrow> pyfloat) \<Rightarrow> pyval \<Rightarrow> pyval \<Rightarrow> exn + pyval" where
  "py_arith int_op float_op a b =
     (case (as_int a, as_int b) of
        (Some m, Some n) \<Rightarrow> Inr (PInt (int_op m n))
      | (Some m, None) \<Rightarrow>
          if \<not> number b then Inl TypeError
          else if int_fits_float m then Inr (PFloat (float_op a b)) else Inl OverflowError
      | (None, Some n) \<Rightarrow>
          if \<not> number a then Inl TypeError
          else if int_fits_float n then Inr (PFloat (float_op a b)) else Inl OverflowError
      | (None, None) \<Rightarrow>
          if number a \<and> number b then Inr (PFloat (float_op a b)) else Inl TypeError)"

definition py_add :: "arith \<Rightarrow> pyval \<Rightarrow> pyval \<Rightarrow> exn + pyval" where
  "py_add ar a b = py_arith (+) (float_add ar) a b"

definition py_sub :: "arith \<Rightarrow> pyval \<Rightarrow> pyval \<Rightarrow> exn + pyval" where
  "py_sub ar a b = py_arith (-) (float_sub ar) a b"

text \<open>
  \<^verbatim>\<open>timedelta(seconds=x)\<close>.  A \<^verbatim>\<open>timedelta\<close> holds between -999999999 and 999999999
  days beside its seconds within the day, and making one outside of that raises
  OverflowError.  The \<^verbatim>\<open>timedelta\<close> made is kept as the number of seconds it was made
  from.
\<close>

definition timedelta_holds :: "int \<Rightarrow> bool" where
  "timedelta_holds n = (- 999999999 \<le> n div 86400 \<and> n div 86400 \<le> 999999999)"

fun timedelta :: "arith \<Rightarrow> pyval \<Rightarrow> exn + pyval" where
  "timedelta ar (PFloat f) =
     (case float_timedelta ar f of None \<Rightarrow> Inr (PFloat f) | Some e \<Rightarrow> Inl (float_exn e))"
| "timedelta ar v =
     (case as_int v of
        None \<Rightarrow> Inl TypeError
      | Some n \<Rightarrow> if timedelta_holds n then Inr (PInt n) else Inl OverflowError)"

text \<open>\<^verbatim>\<open>estimate_time_until\<close>\<close>

definition estimate_time_until ::
  "arith \<Rightarrow> world \<Rightarrow> playlist \<Rightarrow> int \<Rightarrow> player \<Rightarrow> exn + pyval" where
  "estimate_time_until ar w q position pl =
     (let pos = position - 1 in
      case islice (entries q) pos of
        Inl e \<Rightarrow> Inl e
      | Inr before \<Rightarrow>
          if (\<exists>e \<in> set before. duration (heap w e) = PNone) then Inl InvalidDataError
          else
            (case py_sum ar 0 (map (\<lambda>e. duration (heap w e)) before) of
               Inl e \<Rightarrow> Inl e
             | Inr estimated_time \<Rightarrow>
                 (case (if is_stopped pl then None else current_entry pl) of
                    None \<Rightarrow> timedelta ar estimated_time
                  | Some cur \<Rightarrow>
                      if duration (heap w cur) = PNone then Inl InvalidDataError
                      else (case py_sub ar (duration (heap w cur)) (progress pl) of
                              Inl e \<Rightarrow> Inl e
                            | Inr remaining \<Rightarrow>
                                (case py_add ar estimated_time remaining of
                                   Inl e \<Rightarrow> Inl e
                                 | Inr seconds \<Rightarrow> timedelta ar seconds)))))"

section \<open>Persistence (constructs.py and the \<^verbatim>\<open>_deserialize\<close> methods)\<close>

text \<open>Sequencing of steps that may raise.\<close>

definition bind :: "exn + 'a \<Rightarrow> ('a \<Rightarrow> exn + 'b) \<Rightarrow> exn + 'b" where
  "bind x f = (case x of Inl e \<Rightarrow> Inl e | Inr v \<Rightarrow> f v)"

text \<open>
  The classes \<^verbatim>\<open>pydoc.locate\<close> can find in the repository's files, and what it can
  return: nothing, an object that is no class, or a class.
\<close>

datatype pyclass =
    Serializable_class
  | BasePlaylistEntry_class
  | URLPlaylistEntry_class
  | StreamPlaylistEntry_class
  | Playlist_class
  | Other_class

datatype located = Not_found | Not_a_class | Class pyclass

fun issubclass_Serializable :: "pyclass \<Rightarrow> bool" where
  "issubclass_Serializable Other_class = False"
| "issubclass_Serializable c = True"

text \<open>
  What decoding takes from its surroundings: the variables \<^verbatim>\<open>_get_vars\<close> collects from
  the caller's frames (present or \<^verbatim>\<open>None\<close>; of the configuration only \<^verbatim>\<open>save_videos\<close>
  is read), the builtin \<^verbatim>\<open>int\<close>, and \<^verbatim>\<open>pydoc.locate\<close>.
\<close>

record decode_context =
  aiosession :: bool
  config :: "bool option"
  downloader_var :: bool
  loop :: bool
  int_builtin :: "pyval \<Rightarrow> exn + int"
  locateObj :: "string \<Rightarrow> located"

text \<open>The four assertions that open every \<^verbatim>\<open>_deserialize\<close>; \<^verbatim>\<open>_bad\<close> raises TypeError.\<close>

definition injected :: "decode_context \<Rightarrow> bool" where
  "injected ctx = (aiosession ctx \<and> config ctx \<noteq> None \<and> downloader_var ctx \<and> loop ctx)"

text \<open>The \<^verbatim>\<open>meta\<close> both entry decoders rebuild: \<^verbatim>\<open>channel\<close> and \<^verbatim>\<open>author\<close> as integers.\<close>

definition meta_field :: "decode_context \<Rightarrow> pyval \<Rightarrow> string \<Rightarrow> exn + (string \<times> pyval) list" where
  "meta_field ctx data k =
     bind (getitem data ''meta'') (\<lambda>m.
     bind (contains_key m k) (\<lambda>present.
       if present
       then bind (getitem m k) (\<lambda>v. bind (int_builtin ctx v) (\<lambda>n. Inr [(k, PInt n)]))
       else Inr []))"

definition decode_meta :: "decode_context \<Rightarrow> pyval \<Rightarrow> exn + (string \<times> pyval) list" where
  "decode_meta ctx data =
     bind (meta_field ctx data ''channel'') (\<lambda>c.
     bind (meta_field ctx data ''author'') (\<lambda>a. Inr (c @ a)))"

text \<open>The \<^verbatim>\<open>try\<close> block of \<^verbatim>\<open>URLPlaylistEntry._deserialize\<close>: the entry it builds.\<close>

definition URLPlaylistEntry_fields :: "decode_context \<Rightarrow> pyval \<Rightarrow> exn + entry" where
  "URLPlaylistEntry_fields ctx data =
     bind (getitem data ''url'') (\<lambda>u.
     bind (getitem data ''title'') (\<lambda>t.
     bind (getitem data ''duration'') (\<lambda>dur.
     bind (if config ctx = Some True then getitem data ''downloaded'' else Inr (PBool False)) (\<lambda>downloaded.
     bind (if truthy downloaded then getitem data ''filename'' else Inr PNone) (\<lambda>fname.
     bind (getitem data ''expected_filename'') (\<lambda>expected.
     bind (decode_meta ctx data) (\<lambda>m.
       Inr ((URLPlaylistEntry u t dur expected m)\<lparr>filename := fname\<rparr>))))))))"

text \<open>The \<^verbatim>\<open>try\<close> block of \<^verbatim>\<open>StreamPlaylistEntry._deserialize\<close>.\<close>

definition StreamPlaylistEntry_fields :: "decode_context \<Rightarrow> pyval \<Rightarrow> exn + entry" where
  "StreamPlaylistEntry_fields ctx data =
     bind (getitem data ''url'') (\<lambda>u.
     bind (getitem data ''title'') (\<lambda>t.
     bind (getitem data ''destination'') (\<lambda>dest.
     bind (getitem data ''filename'') (\<lambda>fname.
     bind (decode_meta ctx data) (\<lambda>m.
       let entry = StreamPlaylistEntry u t dest m in
       Inr (if \<not> truthy dest \<and> truthy fname then entry\<lparr>filename := dest\<rparr> else entry))))))"

text \<open>
  An entry's \<^verbatim>\<open>_deserialize\<close>: after the assertions, whatever the \<^verbatim>\<open>try\<close> block raises
  is logged and the method returns \<^verbatim>\<open>None\<close>.
\<close>

definition entry_deserialize ::
  "(decode_context \<Rightarrow> pyval \<Rightarrow> exn + entry) \<Rightarrow> decode_context \<Rightarrow> world \<Rightarrow> pyval \<Rightarrow> exn + pyval \<times> world" where
  "entry_deserialize build ctx w data =
     (if \<not> injected ctx then Inl TypeError
      else (case build ctx data of
              Inl e \<Rightarrow> Inr (PNone, w)
            | Inr entry \<Rightarrow> (let (r, w') = alloc w entry in Inr (PObj r, w'))))"

definition URLPlaylistEntry_deserialize :: "decode_context \<Rightarrow> world \<Rightarrow> pyval \<Rightarrow> exn + pyval \<times> world" where
  "URLPlaylistEntry_deserialize = entry_deserialize URLPlaylistEntry_fields"

definition StreamPlaylistEntry_deserialize :: "decode_context \<Rightarrow> world \<Rightarrow> pyval \<Rightarrow> exn + pyval \<times> world" where
  "StreamPlaylistEntry_deserialize = entry_deserialize StreamPlaylistEntry_fields"

text \<open>\<^verbatim>\<open>Playlist._deserialize\<close> appends whatever \<^verbatim>\<open>data['entries']\<close> yields.\<close>

definition Playlist_deserialize :: "decode_context \<Rightarrow> world \<Rightarrow> pyval \<Rightarrow> exn + pyval \<times> world" where
  "Playlist_deserialize ctx w data =
     (if \<not> injected ctx then Inl TypeError
      else bind (getitem data ''entries'') (\<lambda>listing.
           bind (iterate listing) (\<lambda>items. Inr (PPlaylist items, w))))"

text \<open>
  \<^verbatim>\<open>factory._deserialize\<close> by class.  \<^verbatim>\<open>Serializable\<close> raises NotImplementedError, and
  \<^verbatim>\<open>BasePlaylistEntry\<close> inherits that method.
\<close>

fun class_deserialize :: "pyclass \<Rightarrow> decode_context \<Rightarrow> world \<Rightarrow> pyval \<Rightarrow> exn + pyval \<times> world" where
  "class_deserialize URLPlaylistEntry_class ctx w data = URLPlaylistEntry_deserialize ctx w data"
| "class_deserialize StreamPlaylistEntry_class ctx w data = StreamPlaylistEntry_deserialize ctx w data"
| "class_deserialize Playlist_class ctx w data = Playlist_deserialize ctx w data"
| "class_deserialize c ctx w data = Inl NotImplementedError"

text \<open>\<^verbatim>\<open>all(x in data for x in Serializable._class_signature)\<close>\<close>

definition signed :: "(string \<times> pyval) list \<Rightarrow> bool" where
  "signed kvs =
     (map_of kvs ''__class__'' \<noteq> None \<and> map_of kvs ''__module__'' \<noteq> None \<and> map_of kvs ''data'' \<noteq> None)"

text \<open>
  \<^verbatim>\<open>Serializer.deserialize\<close>, on the fields of the dict it is given.  Joining the
  module and class names with \<^verbatim>\<open>+\<close> raises TypeError unless both are strings, and so
  does \<^verbatim>\<open>issubclass\<close> on an object that is no class.
\<close>

definition Serializer_deserialize ::
  "decode_context \<Rightarrow> world \<Rightarrow> (string \<times> pyval) list \<Rightarrow> exn + pyval \<times> world" where
  "Serializer_deserialize ctx w kvs =
     (if signed kvs
      then (case (lookup kvs ''__module__'' PNone, lookup kvs ''__class__'' PNone) of
              (PStr m, PStr c) \<Rightarrow>
                (case locateObj ctx (m @ ''.'' @ c) of
                   Not_found \<Rightarrow> Inr (PDict kvs, w)
                 | Not_a_class \<Rightarrow> Inl TypeError
                 | Class factory \<Rightarrow>
                     if issubclass_Serializable factory
                     then class_deserialize factory ctx w (lookup kvs ''data'' PNone)
                     else Inr (PDict kvs, w))
            | other \<Rightarrow> Inl TypeError)
      else Inr (PDict kvs, w))"

text \<open>
  Modelled from the spec: the caller that decodes the persisted text
  (\<^verbatim>\<open>MusicPlayer.from_json\<close>, in a file that is not among the sources) is missing.
  \<^verbatim>\<open>Serializer.deserialize\<close> takes a dict and returns its replacement, which is the
  protocol of \<^verbatim>\<open>json.loads(text, object_hook=Serializer.deserialize)\<close>: every JSON
  object is handed to the hook once its members are decoded, innermost first and in
  document order, and an exception of the hook ends the decoding.  The input is the
  parsed JSON text.
\<close>

fun loads :: "decode_context \<Rightarrow> world \<Rightarrow> pyval \<Rightarrow> exn + pyval \<times> world"
  and loads_list :: "decode_context \<Rightarrow> world \<Rightarrow> pyval list \<Rightarrow> exn + pyval list \<times> world"
  and loads_items :: "decode_context \<Rightarrow> world \<Rightarrow> (string \<times> pyval) list \<Rightarrow> exn + (string \<times> pyval) list \<times> world" where
  "loads ctx w (PList xs) =
     (case loads_list ctx w xs of Inl e \<Rightarrow> Inl e | Inr (ys, w') \<Rightarrow> Inr (PList ys, w'))"
| "loads ctx w (PDict kvs) =
     (case loads_items ctx w kvs of
        Inl e \<Rightarrow> Inl e
      | Inr (kvs', w') \<Rightarrow> Serializer_deserialize ctx w' kvs')"
| "loads ctx w PNone = Inr (PNone, w)"
| "loads ctx w (PBool b) = Inr (PBool b, w)"
| "loads ctx w (PInt n) = Inr (PInt n, w)"
| "loads ctx w (PFloat f) = Inr (PFloat f, w)"
| "loads ctx w (PStr s) = Inr (PStr s, w)"
| "loads ctx w (PObj r) = Inr (PObj r, w)"
| "loads ctx w (PPlaylist xs) = Inr (PPlaylist xs, w)"
| "loads_list ctx w [] = Inr ([], w)"
| "loads_list ctx w (x # xs) =
     (case loads ctx w x of
        Inl e \<Rightarrow> Inl e
      | Inr (y, w') \<Rightarrow>
          (case loads_list ctx w' xs of Inl e \<Rightarrow> Inl e | Inr (ys, w'') \<Rightarrow> Inr (y # ys, w'')))"
| "loads_items ctx w [] = Inr ([], w)"
| "loads_items ctx w ((k, x) # kvs) =
     (case loads ctx w x of
        Inl e \<Rightarrow> Inl e
      | Inr (y, w') \<Rightarrow>
          (case loads_items ctx w' kvs of
             Inl e \<Rightarrow> Inl e
           | Inr (kvs', w'') \<Rightarrow> Inr ((k, y) # kvs', w'')))"

section \<open>Example states\<close>

text \<open>A listener body that raises in function 0, and three listeners of one event.\<close>

definition raising_body :: "nat \<Rightarrow> unit \<Rightarrow> exn option" where
  "raising_body i p = (if i = 0 then Some (Raised ''boom'') else None)"

definition three_listeners :: "unit emitter" where
  "three_listeners = on (on (on new_emitter ''play'' (Func 0)) ''play'' (Func 1)) ''play'' (CoroFunc 2)"

text \<open>Bodies that never raise; one \<^verbatim>\<open>once\<close> registration; publishing \<^verbatim>\<open>play\<close>.\<close>

definition quiet :: "nat \<Rightarrow> unit \<Rightarrow> exn option" where
  "quiet i p = None"

definition once_demo :: "unit emitter" where
  "once_demo = once new_emitter ''play'' (Func 0)"

definition publish :: "unit emitter \<Rightarrow> unit emitter" where
  "publish em = snd (emit quiet em ''play'' ())"

text \<open>A downloader whose strict extractor raises and whose tolerant one returns a result.\<close>

definition failing_dl :: downloader where
  "failing_dl = \<lparr>unsafe_ytdl = (\<lambda>u download. Inl (DownloadError Other_cause)),
                 safe_ytdl = (\<lambda>u download. Inr (PDict [(''title'', PStr ''t'')])),
                 prepare_filename = (\<lambda>i. Inr (PStr ''f''))\<rparr>"

text \<open>
  The queue of the estimate example: three entries of 30 seconds, 45 seconds and
  unknown duration; a stopped player, and a player that plays entry \<open>r\<close>.
\<close>

definition eta_world :: world where
  "eta_world =
     \<lparr>heap = (\<lambda>r. if r = 0 then URLPlaylistEntry (PStr ''u1'') (PStr ''e1'') (PInt 30) PNone []
                 else if r = 1 then URLPlaylistEntry (PStr ''u2'') (PStr ''e2'') (PInt 45) PNone []
                 else URLPlaylistEntry (PStr ''u3'') (PStr ''e3'') PNone PNone []),
      allocated = 3, futures = [], tasks = []\<rparr>"

definition eta_queue :: playlist where
  "eta_queue = \<lparr>entries = [0, 1, 2], listeners = new_emitter\<rparr>"

definition idle_player :: player where
  "idle_player = \<lparr>is_stopped = True, current_entry = None, progress = PInt 0\<rparr>"

definition playing :: "nat \<Rightarrow> int \<Rightarrow> player" where
  "playing r p = \<lparr>is_stopped = False, current_entry = Some r, progress = PInt p\<rparr>"

text \<open>
  A queue of one entry of \<open>10 ^ 15\<close> seconds; and a world of an entry of \<open>2 ^ 1024\<close>
  seconds, one of a float second and one of unknown duration, with the queue of the
  first two.
\<close>

definition marathon :: world where
  "marathon =
     \<lparr>heap = (\<lambda>r. URLPlaylistEntry (PStr ''u'') (PStr ''e'') (PInt (10 ^ 15)) PNone []),
      allocated = 1, futures = [], tasks = []\<rparr>"

definition marathon_queue :: playlist where
  "marathon_queue = \<lparr>entries = [0], listeners = new_emitter\<rparr>"

definition probed :: world where
  "probed =
     \<lparr>heap = (\<lambda>r. if r = 0 then URLPlaylistEntry (PStr ''u1'') (PStr ''e1'') (PInt (2 ^ 1024)) PNone []
                 else if r = 1 then URLPlaylistEntry (PStr ''u2'') (PStr ''e2'') (PFloat (Double 1 0)) PNone []
                 else URLPlaylistEntry (PStr ''u3'') (PStr ''e3'') PNone PNone []),
      allocated = 3, futures = [], tasks = []\<rparr>"

definition probed_queue :: playlist where
  "probed_queue = \<lparr>entries = [0, 1], listeners = new_emitter\<rparr>"

text \<open>
  For stating the estimate: a duration that is an integer and its value; the entries
  strictly before a 1-based position; the current entry the estimate accounts for.
\<close>

definition integral :: "pyval \<Rightarrow> bool" where
  "integral v = (as_int v \<noteq> None)"

definition the_seconds :: "pyval \<Rightarrow> int" where
  "the_seconds v = (case as_int v of Some n \<Rightarrow> n | None \<Rightarrow> 0)"

definition waited :: "playlist \<Rightarrow> int \<Rightarrow> nat list" where
  "waited q position = take (nat (position - 1)) (entries q)"

definition accounted :: "player \<Rightarrow> nat option" where
  "accounted pl = (if is_stopped pl then None else current_entry pl)"

text \<open>
  A world with no entry yet, extraction results for a video and for a live stream, and
  an environment: the strict extractor knows \<^verbatim>\<open>C-live\<close> as a live stream and every
  other URL as a video; the tolerant extractor returns a listing of three items, the
  second without a \<^verbatim>\<open>webpage_url\<close>; no listener raises.
\<close>

definition new_world :: world where
  "new_world = \<lparr>heap = (\<lambda>r. URLPlaylistEntry PNone PNone PNone PNone []), allocated = 0,
                 futures = [], tasks = []\<rparr>"

definition video :: "string \<Rightarrow> pyval" where
  "video t = PDict [(''extractor'', PStr ''youtube''), (''title'', PStr t),
                    (''duration'', PInt 60), (''webpage_url'', PStr t)]"

definition live :: "string \<Rightarrow> pyval" where
  "live t = PDict [(''extractor'', PStr ''youtube''), (''title'', PStr t),
                   (''is_live'', PBool True), (''url'', PStr ''http://live'')]"

definition studio :: env where
  "studio =
     \<lparr>dl = \<lparr>unsafe_ytdl = (\<lambda>u download. case u of
                               PStr t \<Rightarrow> Inr (if t = ''C-live'' then live t else video t)
                             | other \<Rightarrow> Inl (DownloadError Other_cause)),
             safe_ytdl = (\<lambda>u download.
                            Inr (PDict [(''extractor'', PStr ''youtube''),
                                        (''entries'', PList [video ''x1'', PDict [(''title'', PStr ''x2'')], video ''x3''])])),
             prepare_filename = (\<lambda>i. Inr (PStr ''audio_cache/file''))\<rparr>,
      listener_body = (\<lambda>i p. None),
      get_header = (\<lambda>u. Inl (Raised ''offline''))\<rparr>"

text \<open>A caller that adds one URL after the other, and the URLs of the queue in order.\<close>

fun adds :: "env \<Rightarrow> (string \<times> pyval) list \<Rightarrow> world \<Rightarrow> playlist \<Rightarrow> (string \<times> bool) list
    \<Rightarrow> exn + (int list \<times> world \<times> playlist)" where
  "adds env m w q [] = Inr ([], w, q)"
| "adds env m w q ((song_url, head) # rest) =
     (case add_entry env w q song_url head m of
        Inl e \<Rightarrow> Inl e
      | Inr ((entry, position), w', q') \<Rightarrow>
          (case adds env m w' q' rest of
             Inl e \<Rightarrow> Inl e
           | Inr (positions, w'', q'') \<Rightarrow> Inr (position # positions, w'', q'')))"

definition queue_urls :: "world \<Rightarrow> playlist \<Rightarrow> pyval list" where
  "queue_urls w q = map (\<lambda>r. url (heap w r)) (entries q)"

definition adds_summary :: "env \<Rightarrow> (string \<times> bool) list \<Rightarrow> exn + (int list \<times> pyval list)" where
  "adds_summary env reqs =
     (case adds env [] new_world new_playlist reqs of
        Inl e \<Rightarrow> Inl e
      | Inr (positions, w, q) \<Rightarrow> Inr (positions, queue_urls w q))"

text \<open>A bulk import into the empty queue: the URLs returned, the position, the queue.\<close>

definition import_summary :: "env \<Rightarrow> bool \<Rightarrow> exn + (pyval list \<times> int \<times> pyval list)" where
  "import_summary env head =
     (case import_from env new_world new_playlist ''listing'' head [] of
        Inl e \<Rightarrow> Inl e
      | Inr ((entry_list, position), w, q) \<Rightarrow>
          Inr (map (\<lambda>r. url (heap w r)) entry_list, position, queue_urls w q))"

text \<open>
  For stating what a readiness request has done between two worlds: the entry was
  downloaded and the future is resolved with it, or the future is pending among the
  entry's waiters and a download task is scheduled.
\<close>

definition readiness_requested :: "world \<Rightarrow> world \<Rightarrow> nat \<Rightarrow> nat \<Rightarrow> bool" where
  "readiness_requested w w' r future =
     (if is_downloaded (heap w r)
      then futures w' ! future = Result (PObj r)
      else future \<in> set (waiting_futures (heap w' r)) \<and> futures w' ! future = Pending
           \<and> future < length (futures w') \<and> Task r Not_started \<in> set (tasks w'))"

text \<open>
  Two URL entries that are not downloaded, in a queue; a stream entry without a
  destination (the constructor's default), whose URL the example extractor resolves,
  alone in a queue; and two readiness requests on entry 0, one right after the other.
\<close>

definition two_songs :: world where
  "two_songs =
     \<lparr>heap = (\<lambda>r. URLPlaylistEntry (PStr (if r = 0 then ''first'' else ''second'')) (PStr ''song'')
                    (PInt 60) (PStr ''audio_cache/youtube-id-song.m4a'') []),
      allocated = 2, futures = [], tasks = []\<rparr>"

definition two_songs_queue :: playlist where
  "two_songs_queue = \<lparr>entries = [0, 1], listeners = new_emitter\<rparr>"

definition radio :: world where
  "radio = \<lparr>heap = (\<lambda>r. StreamPlaylistEntry (PStr ''C-live'') (PStr ''radio'') PNone []),
            allocated = 1, futures = [], tasks = []\<rparr>"

definition radio_queue :: playlist where
  "radio_queue = \<lparr>entries = [0], listeners = new_emitter\<rparr>"

definition two_requests :: "world \<Rightarrow> world" where
  "two_requests w = snd (get_ready_future (snd (get_ready_future w 0)) 0)"

text \<open>
  The persisted queue record, as \<^verbatim>\<open>Playlist.__json__\<close> and \<^verbatim>\<open>_enclose_json\<close> write
  it, around the records of the entries.
\<close>

definition queue_record :: "pyval list \<Rightarrow> pyval" where
  "queue_record recs =
     PDict [(''__class__'', PStr ''Playlist''), (''__module__'', PStr ''musicbot.playlist''),
            (''data'', PDict [(''entries'', PList recs)])]"

text \<open>
  For stating what decoding tolerates.  A value is plain when no dict in it bears the
  class signature, so that the hook returns each of its dicts as it is.  A record is
  soft when its members are plain and, if it bears the signature itself, its module and
  class names are strings that \<^verbatim>\<open>pydoc.locate\<close> resolves to nothing, to a class that
  is not \<^verbatim>\<open>Serializable\<close>, or to one of the two entry classes.
\<close>

fun plain :: "pyval \<Rightarrow> bool"
  and plain_list :: "pyval list \<Rightarrow> bool"
  and plain_items :: "(string \<times> pyval) list \<Rightarrow> bool" where
  "plain (PList xs) = plain_list xs"
| "plain (PDict kvs) = (\<not> signed kvs \<and> plain_items kvs)"
| "plain PNone = True"
| "plain (PBool b) = True"
| "plain (PInt n) = True"
| "plain (PFloat f) = True"
| "plain (PStr s) = True"
| "plain (PObj r) = True"
| "plain (PPlaylist xs) = True"
| "plain_list [] = True"
| "plain_list (x # xs) = (plain x \<and> plain_list xs)"
| "plain_items [] = True"
| "plain_items ((k, x) # kvs) = (plain x \<and> plain_items kvs)"

definition discriminator :: "decode_context \<Rightarrow> (string \<times> pyval) list \<Rightarrow> located option" where
  "discriminator ctx kvs =
     (case (lookup kvs ''__module__'' PNone, lookup kvs ''__class__'' PNone) of
        (PStr m, PStr c) \<Rightarrow> Some (locateObj ctx (m @ ''.'' @ c))
      | other \<Rightarrow> None)"

fun soft_record :: "decode_context \<Rightarrow> pyval \<Rightarrow> bool" where
  "soft_record ctx (PDict kvs) =
     (plain_items kvs \<and>
      (if signed kvs
       then discriminator ctx kvs \<in> {Some Not_found, Some (Class Other_class),
              Some (Class URLPlaylistEntry_class), Some (Class StreamPlaylistEntry_class)}
       else True))"
| "soft_record ctx v = plain v"

text \<open>
  What a soft record is decoded as, in a world: the entry its fields build (\<^verbatim>\<open>None\<close>
  when building them raises) for a record of an entry class, and the record itself,
  undecoded, otherwise.
\<close>

definition rebuilt :: "world \<Rightarrow> exn + entry \<Rightarrow> pyval \<Rightarrow> bool" where
  "rebuilt w' built v =
     (case built of
        Inl e \<Rightarrow> v = PNone
      | Inr entry \<Rightarrow> (case v of PObj r \<Rightarrow> heap w' r = entry | other \<Rightarrow> False))"

fun decoded_as :: "decode_context \<Rightarrow> world \<Rightarrow> pyval \<Rightarrow> pyval \<Rightarrow> bool" where
  "decoded_as ctx w' (PDict kvs) v =
     (if signed kvs \<and> discriminator ctx kvs = Some (Class URLPlaylistEntry_class)
      then rebuilt w' (URLPlaylistEntry_fields ctx (lookup kvs ''data'' PNone)) v
      else if signed kvs \<and> discriminator ctx kvs = Some (Class StreamPlaylistEntry_class)
      then rebuilt w' (StreamPlaylistEntry_fields ctx (lookup kvs ''data'' PNone)) v
      else v = PDict kvs)"
| "decoded_as ctx w' rec v = (v = rec)"

text \<open>A later world keeps the entries of an earlier one.\<close>

definition extends :: "world \<Rightarrow> world \<Rightarrow> bool" where
  "extends w w' = (allocated w \<le> allocated w' \<and> (\<forall>r < allocated w. heap w' r = heap w r))"

text \<open>
  The builtin \<^verbatim>\<open>int\<close>: an integer is itself, a float is truncated towards zero
  (OverflowError for an infinity, ValueError for not-a-number), a string is read as a
  decimal numeral (blanks around it, a sign, single underscores between digits; ValueError
  otherwise), and any other value of the model raises TypeError.
\<close>

definition is_space :: "char \<Rightarrow> bool" where
  "is_space c = (of_char c \<in> set [9, 10, 11, 12, 13, 28, 29, 30, 31, 32, 133, 160 :: nat])"

definition strip :: "string \<Rightarrow> string" where
  "strip s = rev (dropWhile is_space (rev (dropWhile is_space s)))"

fun numeral_value :: "int \<Rightarrow> bool \<Rightarrow> string \<Rightarrow> int option" where
  "numeral_value acc after_digit [] = (if after_digit then Some acc else None)"
| "numeral_value acc after_digit (c # cs) =
     (if 48 \<le> (of_char c :: nat) \<and> (of_char c :: nat) \<le> 57
      then numeral_value (10 * acc + (int (of_char c) - 48)) True cs
      else if c = CHR ''_'' \<and> after_digit then numeral_value acc False cs
      else None)"

definition int_of_string :: "string \<Rightarrow> int option" where
  "int_of_string s =
     (case strip s of
        [] \<Rightarrow> None
      | c # cs \<Rightarrow>
          if c = CHR ''-'' then map_option uminus (numeral_value 0 False cs)
          else if c = CHR ''+'' then numeral_value 0 False cs
          else numeral_value 0 False (c # cs))"

fun int_of_float :: "pyfloat \<Rightarrow> exn + int" where
  "int_of_float (Double m e) =
     Inr (if 0 \<le> e then m * 2 ^ nat e
          else if 0 \<le> m then m div 2 ^ nat (- e)
          else - ((- m) div 2 ^ nat (- e)))"
| "int_of_float (Infinity negative) = Inl OverflowError"
| "int_of_float NaN = Inl ValueError"

fun py_int :: "pyval \<Rightarrow> exn + int" where
  "py_int (PInt n) = Inr n"
| "py_int (PBool b) = Inr (if b then 1 else 0)"
| "py_int (PFloat f) = int_of_float f"
| "py_int (PStr s) = (case int_of_string s of None \<Rightarrow> Inl ValueError | Some n \<Rightarrow> Inr n)"
| "py_int v = Inl TypeError"

text \<open>
  \<^verbatim>\<open>pydoc.locate\<close> on the names that the modules \<^verbatim>\<open>musicbot.entry\<close>,
  \<^verbatim>\<open>musicbot.playlist\<close> and \<^verbatim>\<open>musicbot.constructs\<close> define, and on the classes they
  import from each other (a name is found in every module that holds it); names of
  other modules are left out, and are answered as names that resolve to nothing.  Then
  a decoding context with every variable present, and records: a complete URL entry with
  the entry it decodes to, and a queue of a URL record without title, a record of an
  unknown class and the complete one.
\<close>

definition repo_locate :: "string \<Rightarrow> located" where
  "repo_locate path =
     (if path \<in> set [''musicbot.entry.URLPlaylistEntry'', ''musicbot.playlist.URLPlaylistEntry'']
      then Class URLPlaylistEntry_class
      else if path \<in> set [''musicbot.entry.StreamPlaylistEntry'',
                            ''musicbot.playlist.StreamPlaylistEntry'']
      then Class StreamPlaylistEntry_class
      else if path = ''musicbot.entry.BasePlaylistEntry'' then Class BasePlaylistEntry_class
      else if path \<in> set [''musicbot.constructs.Serializable'', ''musicbot.entry.Serializable'',
                            ''musicbot.playlist.Serializable'']
      then Class Serializable_class
      else if path = ''musicbot.playlist.Playlist'' then Class Playlist_class
      else if path \<in> set [''musicbot.entry.EntryTypes'', ''musicbot.constructs.BetterLogRecord'',
                            ''musicbot.constructs.SkipState'', ''musicbot.constructs.Serializer'']
      then Class Other_class
      else if path \<in> set [''musicbot.entry'', ''musicbot.playlist'', ''musicbot.constructs'',
                            ''musicbot.entry.log'', ''musicbot.playlist.log'',
                            ''musicbot.constructs.log'', ''musicbot.entry.PlaylistEntry'',
                            ''musicbot.playlist.PlaylistEntry'']
      then Not_a_class
      else Not_found)"

definition repo_context :: decode_context where
  "repo_context =
     \<lparr>aiosession = True, config = Some True, downloader_var = True, loop = True,
      int_builtin = py_int, locateObj = repo_locate\<rparr>"

definition entry_record :: "string \<Rightarrow> (string \<times> pyval) list \<Rightarrow> pyval" where
  "entry_record c payload =
     PDict [(''__class__'', PStr c), (''__module__'', PStr ''musicbot.entry''), (''data'', PDict payload)]"

definition song_payload :: "(string \<times> pyval) list" where
  "song_payload =
     [(''version'', PInt 1), (''url'', PStr ''https://a''), (''title'', PStr ''A''),
      (''duration'', PInt 30), (''downloaded'', PBool False),
      (''expected_filename'', PStr ''audio_cache/a.m4a''), (''filename'', PNone),
      (''full_filename'', PNone), (''meta'', PDict [(''channel'', PInt 7), (''author'', PInt 9)]),
      (''aoptions'', PStr ''-vn'')]"

definition song_entry :: entry where
  "song_entry = URLPlaylistEntry (PStr ''https://a'') (PStr ''A'') (PInt 30) (PStr ''audio_cache/a.m4a'')
                  [(''channel'', PInt 7), (''author'', PInt 9)]"

definition mixed_records :: "pyval list" where
  "mixed_records =
     [entry_record ''URLPlaylistEntry'' [(''url'', PStr ''https://c'')],
      entry_record ''FilePlaylistEntry'' [],
      entry_record ''URLPlaylistEntry'' song_payload]"

text \<open>
  The invariant behind the flag of a URL entry: a task suspended in the URL routine
  belongs to a URL entry and one suspended in the stream routine to a stream entry,
  and a URL entry has one download under way when its flag is set and none otherwise.
\<close>

fun routine_of :: "world \<Rightarrow> task \<Rightarrow> bool" where
  "routine_of w (Task r Awaiting_download) = (cls (heap w r) = URL)"
| "routine_of w (Task r (Awaiting_extract fallback)) = (cls (heap w r) = Stream)"
| "routine_of w (Task r st) = True"

definition url_exclusive :: "world \<Rightarrow> bool" where
  "url_exclusive w =
     (list_all (routine_of w) (tasks w) \<and>
      (\<forall>r. cls (heap w r) = URL \<longrightarrow> in_flight w r = (if is_downloading (heap w r) then 1 else 0)))"

section \<open>Properties\<close>

subsection \<open>Event emitter\<close>

text \<open>\<^verbatim>\<open>off\<close> touches the registry only.\<close>

lemma off_frame:
  "calls (snd (off em event cb)) = calls em"
  "scheduled (snd (off em event cb)) = scheduled em"
  "tracebacks (snd (off em event cb)) = tracebacks em"
  by (simp_all add: off_def Let_def)

text \<open>
  A call enters the function it calls and leaves the earlier records alone; one round of
  the loop and the whole loop raise nothing.
\<close>

lemma call_grows:
  "\<exists>cs. calls (snd (call body cb p em)) = calls em @ cs
        \<and> (\<not> iscoroutinefunction cb \<longrightarrow> (cb, p) \<in> set cs)
        \<and> scheduled (snd (call body cb p em)) = scheduled em
        \<and> tracebacks (snd (call body cb p em)) = tracebacks em"
proof (induction cb arbitrary: em)
  case (Func i)
  then show ?case by simp
next
  case (CoroFunc i)
  then show ?case by simp
next
  case (OnceClosure k event cb)
  let ?em1 = "em\<lparr>calls := calls em @ [(OnceClosure k event cb, p)]\<rparr>"
  obtain r em2 where o: "off ?em1 event cb = (r, em2)" by (cases "off ?em1 event cb")
  have c2: "calls em2 = calls em @ [(OnceClosure k event cb, p)]" "scheduled em2 = scheduled em"
      "tracebacks em2 = tracebacks em"
    using off_frame[of ?em1 event cb] o by simp_all
  show ?case
  proof (cases r)
    case None
    from OnceClosure[of em2] obtain cs where
      "calls (snd (call body cb p em2)) = calls em2 @ cs"
      "scheduled (snd (call body cb p em2)) = scheduled em2"
      "tracebacks (snd (call body cb p em2)) = tracebacks em2" by blast
    then show ?thesis using o None c2 by simp
  next
    case (Some e)
    then show ?thesis using o c2 by simp
  qed
qed

lemma emit_one_grows:
  "fst (emit_one body cb p em) = None \<and>
   (\<exists>cs ss ts. calls (snd (emit_one body cb p em)) = calls em @ cs
        \<and> scheduled (snd (emit_one body cb p em)) = scheduled em @ ss
        \<and> tracebacks (snd (emit_one body cb p em)) = tracebacks em @ ts
        \<and> (if iscoroutinefunction cb then (cb, p) \<in> set ss else (cb, p) \<in> set cs)
        \<and> (\<forall>i e. cb = Func i \<and> body i p = Some e \<longrightarrow> e \<in> set ts))"
proof (cases "iscoroutinefunction cb")
  case True
  then have "\<And>i. cb \<noteq> Func i" by auto
  with True show ?thesis by (simp add: emit_one_def)
next
  case False
  obtain r em1 where c: "call body cb p em = (r, em1)" by (cases "call body cb p em")
  from call_grows[of body cb p em] c False obtain cs where
    g: "calls em1 = calls em @ cs" "(cb, p) \<in> set cs" "scheduled em1 = scheduled em"
       "tracebacks em1 = tracebacks em" by auto
  have r: "\<And>i. cb = Func i \<Longrightarrow> r = body i p" using c by auto
  show ?thesis
  proof (cases r)
    case None
    then show ?thesis using c False g r by (auto simp add: emit_one_def)
  next
    case (Some e)
    then show ?thesis using c False g r by (auto simp add: emit_one_def)
  qed
qed

lemma emit_loop_grows:
  "fst (emit_loop body l p em) = None \<and>
   (\<exists>cs ss ts. calls (snd (emit_loop body l p em)) = calls em @ cs
        \<and> scheduled (snd (emit_loop body l p em)) = scheduled em @ ss
        \<and> tracebacks (snd (emit_loop body l p em)) = tracebacks em @ ts
        \<and> (\<forall>cb \<in> set l. if iscoroutinefunction cb then (cb, p) \<in> set ss else (cb, p) \<in> set cs)
        \<and> (\<forall>i e. Func i \<in> set l \<and> body i p = Some e \<longrightarrow> e \<in> set ts))"
proof (induction l arbitrary: em)
  case Nil
  then show ?case by simp
next
  case (Cons cb l)
  obtain r em1 where o: "emit_one body cb p em = (r, em1)" by (cases "emit_one body cb p em")
  from emit_one_grows[of body cb p em] o obtain cs ss ts where
    r: "r = None" and g: "calls em1 = calls em @ cs" "scheduled em1 = scheduled em @ ss"
      "tracebacks em1 = tracebacks em @ ts"
      "if iscoroutinefunction cb then (cb, p) \<in> set ss else (cb, p) \<in> set cs"
      "\<forall>i e. cb = Func i \<and> body i p = Some e \<longrightarrow> e \<in> set ts" by auto
  from Cons[of em1] obtain cs' ss' ts' where
    f: "fst (emit_loop body l p em1) = None" and
    g': "calls (snd (emit_loop body l p em1)) = calls em1 @ cs'"
       "scheduled (snd (emit_loop body l p em1)) = scheduled em1 @ ss'"
       "tracebacks (snd (emit_loop body l p em1)) = tracebacks em1 @ ts'"
       "\<forall>cb \<in> set l. if iscoroutinefunction cb then (cb, p) \<in> set ss' else (cb, p) \<in> set cs'"
       "\<forall>i e. Func i \<in> set l \<and> body i p = Some e \<longrightarrow> e \<in> set ts'" by blast
  have "calls (snd (emit_loop body (cb # l) p em)) = calls em @ (cs @ cs')"
       "scheduled (snd (emit_loop body (cb # l) p em)) = scheduled em @ (ss @ ss')"
       "tracebacks (snd (emit_loop body (cb # l) p em)) = tracebacks em @ (ts @ ts')"
    using o r g g' by simp_all
  moreover have "\<forall>c \<in> set (cb # l). if iscoroutinefunction c then (c, p) \<in> set (ss @ ss') else (c, p) \<in> set (cs @ cs')"
    using g(4) g'(4) by auto
  moreover have "\<forall>i e. Func i \<in> set (cb # l) \<and> body i p = Some e \<longrightarrow> e \<in> set (ts @ ts')"
    using g(5) g'(5) by auto
  moreover have "fst (emit_loop body (cb # l) p em) = None" using o r f by simp
  ultimately show ?case by blast
qed

text \<open>\<^verbatim>\<open>emit\<close> raises nothing.\<close>

lemma emit_never_raises: "fst (emit body em event p) = None"
  using emit_loop_grows[of body _ p em] by (simp add: emit_def split: option.split)

text \<open>
  C8.  \<^verbatim>\<open>emit\<close> never raises to the publisher, whatever the bodies do.  Publishing
  an event with no registered callback changes nothing.  Otherwise every callback
  registered for the event is invoked: a plain function is entered with the payload, a
  coroutine function is handed to \<^verbatim>\<open>ensure_future\<close>; and the exception of a registered
  function that raises is printed, not propagated, and stops no sibling.
\<close>

theorem emit_invokes_every_callback:
  "fst (emit body em event p) = None \<and>
   (events em event = None \<longrightarrow> snd (emit body em event p) = em) \<and>
   (\<forall>l. events em event = Some l \<longrightarrow>
      (\<exists>cs ss ts.
         calls (snd (emit body em event p)) = calls em @ cs \<and>
         scheduled (snd (emit body em event p)) = scheduled em @ ss \<and>
         tracebacks (snd (emit body em event p)) = tracebacks em @ ts \<and>
         (\<forall>cb \<in> set l. if iscoroutinefunction cb then (cb, p) \<in> set ss else (cb, p) \<in> set cs) \<and>
         (\<forall>i e. Func i \<in> set l \<and> body i p = Some e \<longrightarrow> e \<in> set ts)))"
proof (intro conjI allI impI)
  show "fst (emit body em event p) = None" by (rule emit_never_raises)
next
  assume "events em event = None"
  then show "snd (emit body em event p) = em" by (simp add: emit_def)
next
  fix l assume l: "events em event = Some l"
  then have "emit body em event p = emit_loop body l p em" by (simp add: emit_def)
  then show "\<exists>cs ss ts.
         calls (snd (emit body em event p)) = calls em @ cs \<and>
         scheduled (snd (emit body em event p)) = scheduled em @ ss \<and>
         tracebacks (snd (emit body em event p)) = tracebacks em @ ts \<and>
         (\<forall>cb \<in> set l. if iscoroutinefunction cb then (cb, p) \<in> set ss else (cb, p) \<in> set cs) \<and>
         (\<forall>i e. Func i \<in> set l \<and> body i p = Some e \<longrightarrow> e \<in> set ts)"
    using emit_loop_grows[of body l p em] by simp
qed

text \<open>The witness for C8: three listeners, the first of which raises.\<close>

lemma three_listeners_events:
  "events three_listeners ''play'' = Some [Func 0, Func 1, CoroFunc 2]"
  by (simp add: three_listeners_def on_def events_at_def new_emitter_def)

theorem emit_invokes_every_callback_witness:
  "events three_listeners ''play'' = Some [Func 0, Func 1, CoroFunc 2] \<and>
   raising_body 0 () = Some (Raised ''boom'') \<and>
   fst (emit raising_body three_listeners ''play'' ()) = None \<and>
   (Func 0, ()) \<in> set (calls (snd (emit raising_body three_listeners ''play'' ()))) \<and>
   (Func 1, ()) \<in> set (calls (snd (emit raising_body three_listeners ''play'' ()))) \<and>
   (CoroFunc 2, ()) \<in> set (scheduled (snd (emit raising_body three_listeners ''play'' ()))) \<and>
   Raised ''boom'' \<in> set (tracebacks (snd (emit raising_body three_listeners ''play'' ())))"
proof -
  let ?em' = "snd (emit raising_body three_listeners ''play'' ())"
  note ev = three_listeners_events
  have b: "raising_body 0 () = Some (Raised ''boom'')" by (simp add: raising_body_def)
  from emit_invokes_every_callback[of raising_body three_listeners "''play''" "()"] ev
  obtain cs ss ts where
    n: "fst (emit raising_body three_listeners ''play'' ()) = None" and
    g: "calls ?em' = calls three_listeners @ cs" "scheduled ?em' = scheduled three_listeners @ ss"
       "tracebacks ?em' = tracebacks three_listeners @ ts"
       "\<forall>cb \<in> set [Func 0, Func 1, CoroFunc 2]. if iscoroutinefunction cb then (cb, ()) \<in> set ss else (cb, ()) \<in> set cs"
       "\<forall>i e. Func i \<in> set [Func 0, Func 1, CoroFunc 2] \<and> raising_body i () = Some e \<longrightarrow> e \<in> set ts"
    by blast
  from g(4) have "(Func 0, ()) \<in> set cs" "(Func 1, ()) \<in> set cs" "(CoroFunc 2, ()) \<in> set ss" by simp_all
  moreover from g(5) b have "Raised ''boom'' \<in> set ts" by auto
  ultimately show ?thesis using ev b n g(1,2,3) by simp
qed

text \<open>
  C7.  What the code does with \<^verbatim>\<open>once\<close>: the closure calls \<^verbatim>\<open>self.off(event, cb)\<close>
  with the wrapped \<^verbatim>\<open>cb\<close>, which is not in the registry (the closure is), so
  \<^verbatim>\<open>list.remove\<close> raises before \<^verbatim>\<open>cb\<close> is called.  After one publish and after
  two the closure is still registered, \<^verbatim>\<open>cb\<close> has never been entered and each publish
  has printed a ValueError.  When \<^verbatim>\<open>cb\<close> is also registered directly (again before
  each publish), the closure removes that registration and enters \<^verbatim>\<open>cb\<close> on every
  publish: twice in two publishes, next to the two direct calls.
\<close>

theorem once_registration_outlives_publish:
  "events once_demo ''play'' = Some [OnceClosure 0 ''play'' (Func 0)] \<and>
   events (publish once_demo) ''play'' = Some [OnceClosure 0 ''play'' (Func 0)] \<and>
   calls (publish once_demo) = [(OnceClosure 0 ''play'' (Func 0), ())] \<and>
   tracebacks (publish once_demo) = [ValueError] \<and>
   events (publish (publish once_demo)) ''play'' = Some [OnceClosure 0 ''play'' (Func 0)] \<and>
   calls (publish (publish once_demo)) =
     [(OnceClosure 0 ''play'' (Func 0), ()), (OnceClosure 0 ''play'' (Func 0), ())] \<and>
   calls (publish (on (publish (on once_demo ''play'' (Func 0))) ''play'' (Func 0))) =
     [(OnceClosure 0 ''play'' (Func 0), ()), (Func 0, ()), (Func 0, ()),
      (OnceClosure 0 ''play'' (Func 0), ()), (Func 0, ()), (Func 0, ())]"
  by (simp add: publish_def emit_def once_demo_def once_def on_def events_at_def new_emitter_def
        emit_one_def off_def Let_def quiet_def)

subsection \<open>Extraction dispatcher\<close>

text \<open>
  C10.  With a callable error hook and the retry flag unset, an exception of the
  underlying extraction is not raised to the caller and nothing is retried:
  \<^verbatim>\<open>extract_info\<close> returns \<^verbatim>\<open>None\<close> and has handed the exception to the hook
  through the loop (\<^verbatim>\<open>ensure_future\<close> for a coroutine function,
  \<^verbatim>\<open>call_soon_threadsafe\<close> otherwise).
\<close>

theorem extract_info_hook_without_retry:
  "callable on_error \<Longrightarrow> \<not> retry_on_error \<Longrightarrow> unsafe_ytdl d u download = Inl e \<Longrightarrow>
   extract_info d u download on_error retry_on_error =
     (Inr PNone,
      [if hook_iscoroutinefunction on_error then Ensure_future_call on_error e
       else Call_soon_threadsafe on_error e])"
  by (cases on_error) (simp_all add: extract_info_def)

text \<open>The witness for C10: a plain hook, a strict extractor that raises.\<close>

theorem extract_info_hook_without_retry_witness:
  "callable (PlainCallable 0) \<and> unsafe_ytdl failing_dl (PStr ''u'') True = Inl (DownloadError Other_cause) \<and>
   extract_info failing_dl (PStr ''u'') True (PlainCallable 0) False =
     (Inr PNone, [Call_soon_threadsafe (PlainCallable 0) (DownloadError Other_cause)])"
proof -
  have c: "callable (PlainCallable 0)" by simp
  have u: "unsafe_ytdl failing_dl (PStr ''u'') True = Inl (DownloadError Other_cause)"
    by (simp add: failing_dl_def)
  have n: "\<not> False" by simp
  from extract_info_hook_without_retry[OF c n u] c u show ?thesis by simp
qed

subsection \<open>Estimated waiting time\<close>

text \<open>
  \<^verbatim>\<open>sum\<close> over integer durations; and the arithmetic of the estimate never raises
  InvalidDataError.
\<close>

lemma py_sum_integral:
  "\<forall>v \<in> set vs. integral v \<Longrightarrow> py_sum ar acc vs = Inr (PInt (acc + sum_list (map the_seconds vs)))"
proof (induction vs arbitrary: acc)
  case Nil
  show ?case by simp
next
  case (Cons v vs)
  from Cons.prems obtain n where n: "as_int v = Some n" by (auto simp: integral_def)
  then have "py_sum ar acc (v # vs) = py_sum ar (acc + n) vs" by (cases v) simp_all
  with Cons n show ?case by (simp add: the_seconds_def)
qed

lemma float_tail_error: "float_tail vs \<noteq> Some InvalidDataError"
proof (induction vs)
  case Nil
  show ?case by simp
next
  case (Cons v vs)
  then show ?case by (cases v) (simp_all split: if_splits)
qed

lemma py_sum_error: "py_sum ar acc vs \<noteq> Inl InvalidDataError"
proof (induction vs arbitrary: acc)
  case Nil
  show ?case by simp
next
  case (Cons v vs)
  then show ?case using float_tail_error[of vs] by (cases v) (auto split: option.splits)
qed

lemma py_arith_error: "py_arith int_op float_op a b \<noteq> Inl InvalidDataError"
  by (simp add: py_arith_def split: option.splits)

lemma py_sub_error: "py_sub ar a b \<noteq> Inl InvalidDataError"
  by (simp add: py_sub_def py_arith_error)

lemma py_add_error: "py_add ar a b \<noteq> Inl InvalidDataError"
  by (simp add: py_add_def py_arith_error)

lemma timedelta_error: "timedelta ar v \<noteq> Inl InvalidDataError"
proof (cases v)
  case (PFloat f)
  then show ?thesis by (cases "float_timedelta ar f"; cases "the (float_timedelta ar f)") auto
qed (simp_all)

text \<open>
  C3, as stated, fails on the code: for the queue of 30, 45 and unknown seconds and no
  current entry accounted, the estimate for position 3 is 75 seconds, not a failure.
  The unknown duration is that of the third entry, which is not before position 3.
\<close>

theorem eta_example_counterexample:
  "\<forall>ar. estimate_time_until ar eta_world eta_queue 3 idle_player = Inr (PInt 75) \<and>
        estimate_time_until ar eta_world eta_queue 3 idle_player \<noteq> Inl InvalidDataError"
  by (simp add: estimate_time_until_def eta_world_def eta_queue_def idle_player_def islice_def
        sys_maxsize_def URLPlaylistEntry_def timedelta_holds_def)

text \<open>
  C3, amended: with no current entry accounted, the estimates for positions 1, 2 and 3
  of the queue of 30, 45 and unknown seconds are 0, 30 and 75
  seconds, and the estimate for position 4 fails with InvalidDataError: the entry of
  unknown duration is strictly before position 4 only.
\<close>

theorem eta_example:
  "estimate_time_until ar eta_world eta_queue 1 idle_player = Inr (PInt 0) \<and>
   estimate_time_until ar eta_world eta_queue 2 idle_player = Inr (PInt 30) \<and>
   estimate_time_until ar eta_world eta_queue 3 idle_player = Inr (PInt 75) \<and>
   estimate_time_until ar eta_world eta_queue 4 idle_player = Inl InvalidDataError"
  by (simp add: estimate_time_until_def eta_world_def eta_queue_def idle_player_def islice_def
        sys_maxsize_def URLPlaylistEntry_def timedelta_holds_def)

text \<open>
  C4, as stated, fails on the code in three ways.  One entry of \<open>10 ^ 15\<close> seconds
  waits before position 2: the sum is known, and the estimate raises OverflowError, for
  a \<^verbatim>\<open>timedelta\<close> holds less than \<open>10 ^ 9\<close> days.  Before position 3 wait an entry of
  \<open>2 ^ 1024\<close> seconds and one of a float second, while the entry that plays has no
  duration: the estimate raises OverflowError, not InvalidDataError, for the sum
  is formed first and the integer does not convert to a float.  And position
  \<open>2 ^ 63 + 1\<close> of the queue of 30, 45 and unknown seconds is refused by \<^verbatim>\<open>islice\<close>
  with ValueError, although the entry of unknown duration is before it.
\<close>

theorem estimate_time_until_counterexample:
  "\<forall>ar. estimate_time_until ar marathon marathon_queue 2 idle_player = Inl OverflowError \<and>
        estimate_time_until ar probed probed_queue 3 (playing 2 0) = Inl OverflowError \<and>
        accounted (playing 2 0) = Some 2 \<and> duration (heap probed 2) = PNone \<and>
        estimate_time_until ar eta_world eta_queue (2 ^ 63 + 1) idle_player = Inl ValueError \<and>
        duration (heap eta_world 2) = PNone"
  by (simp add: estimate_time_until_def marathon_def marathon_queue_def probed_def probed_queue_def
        eta_world_def eta_queue_def idle_player_def playing_def accounted_def islice_def
        sys_maxsize_def URLPlaylistEntry_def timedelta_holds_def int_fits_float_def)

text \<open>
  C4, amended.  For every queue and every 1-based position that \<^verbatim>\<open>islice\<close> accepts (one
  up to \<^verbatim>\<open>sys.maxsize\<close> + 1), the estimate fails with InvalidDataError if and only if
  some entry strictly before the position has unknown duration, or the durations
  before the position add up without error and a current entry is accounted whose
  duration is unknown.  When it does not fail so, it is the \<^verbatim>\<open>timedelta\<close> of the sum
  of the durations before the position, with the duration less the progress of the
  current entry added when one is accounted, or the error that forming it raises.
  Durations that are integers add up without error, and when the accounted ones all are
  integers (zero included) the estimate is their sum before the position, plus what
  remains of the current entry when one is accounted (its progress an integer too), if
  a \<^verbatim>\<open>timedelta\<close> holds that many seconds, and OverflowError if not.
\<close>

theorem estimate_time_until_insufficient_data:
  assumes pos: "1 \<le> position" "position - 1 \<le> sys_maxsize"
  shows "(estimate_time_until ar w q position pl = Inl InvalidDataError \<longleftrightarrow>
            (\<exists>e \<in> set (waited q position). duration (heap w e) = PNone) \<or>
            (\<exists>s. py_sum ar 0 (map (\<lambda>e. duration (heap w e)) (waited q position)) = Inr s) \<and>
            (\<exists>c. accounted pl = Some c \<and> duration (heap w c) = PNone)) \<and>
         (estimate_time_until ar w q position pl \<noteq> Inl InvalidDataError \<longrightarrow>
            estimate_time_until ar w q position pl =
              bind (py_sum ar 0 (map (\<lambda>e. duration (heap w e)) (waited q position)))
                (\<lambda>s. case accounted pl of
                        None \<Rightarrow> timedelta ar s
                      | Some c \<Rightarrow>
                          bind (py_sub ar (duration (heap w c)) (progress pl))
                            (\<lambda>r. bind (py_add ar s r) (timedelta ar)))) \<and>
         ((\<forall>e \<in> set (waited q position). integral (duration (heap w e))) \<and>
          (\<forall>c. accounted pl = Some c \<longrightarrow>
                 integral (duration (heap w c)) \<and> integral (progress pl)) \<longrightarrow>
            (\<exists>s. py_sum ar 0 (map (\<lambda>e. duration (heap w e)) (waited q position)) = Inr s) \<and>
            estimate_time_until ar w q position pl =
              (let seconds = sum_list (map (\<lambda>e. the_seconds (duration (heap w e))) (waited q position))
                           + (case accounted pl of
                                None \<Rightarrow> 0
                              | Some c \<Rightarrow> the_seconds (duration (heap w c)) - the_seconds (progress pl))
               in if timedelta_holds seconds then Inr (PInt seconds) else Inl OverflowError))"
proof -
  let ?before = "waited q position"
  let ?ds = "map (\<lambda>e. duration (heap w e)) ?before"
  let ?formed = "bind (py_sum ar 0 ?ds)
                (\<lambda>s. case accounted pl of
                        None \<Rightarrow> timedelta ar s
                      | Some c \<Rightarrow>
                          bind (py_sub ar (duration (heap w c)) (progress pl))
                            (\<lambda>r. bind (py_add ar s r) (timedelta ar)))"
  have sl: "islice (entries q) (position - 1) = Inr ?before"
    using pos by (simp add: islice_def waited_def)
  have acc: "(if is_stopped pl then None else current_entry pl) = accounted pl"
    by (simp add: accounted_def)
  have formed: "estimate_time_until ar w q position pl = ?formed"
    if none: "\<not> (\<exists>e \<in> set ?before. duration (heap w e) = PNone)"
      and cur: "\<not> ((\<exists>s. py_sum ar 0 ?ds = Inr s) \<and> (\<exists>c. accounted pl = Some c \<and> duration (heap w c) = PNone))"
  proof (cases "py_sum ar 0 ?ds")
    case (Inl e)
    then show ?thesis using sl none by (simp add: estimate_time_until_def bind_def)
  next
    case (Inr s)
    show ?thesis
    proof (cases "accounted pl")
      case None
      then show ?thesis using sl none Inr acc by (simp add: estimate_time_until_def bind_def)
    next
      case (Some c)
      with cur Inr have "duration (heap w c) \<noteq> PNone" by auto
      then show ?thesis using sl none Inr acc Some
        by (simp add: estimate_time_until_def bind_def split: sum.splits)
    qed
  qed
  have formed_error: "?formed \<noteq> Inl InvalidDataError"
  proof (cases "py_sum ar 0 ?ds")
    case (Inl e)
    then show ?thesis using py_sum_error[of ar 0 ?ds] by (auto simp: bind_def)
  next
    case (Inr s)
    show ?thesis
    proof (cases "accounted pl")
      case None
      then show ?thesis using Inr timedelta_error[of ar s] by (simp add: bind_def)
    next
      case (Some c)
      show ?thesis
      proof (cases "py_sub ar (duration (heap w c)) (progress pl)")
        case (Inl e)
        then show ?thesis
          using Inr Some py_sub_error[of ar "duration (heap w c)" "progress pl"]
          by (auto simp: bind_def)
      next
        case remaining: (Inr r)
        show ?thesis
        proof (cases "py_add ar s r")
          case (Inl e)
          then show ?thesis using Inr Some remaining py_add_error[of ar s r] by (auto simp: bind_def)
        next
          case added: (Inr t)
          then show ?thesis using Inr Some remaining timedelta_error[of ar t] by (simp add: bind_def)
        qed
      qed
    qed
  qed
  have first: "estimate_time_until ar w q position pl = Inl InvalidDataError \<longleftrightarrow>
            (\<exists>e \<in> set ?before. duration (heap w e) = PNone) \<or>
            (\<exists>s. py_sum ar 0 ?ds = Inr s) \<and>
            (\<exists>c. accounted pl = Some c \<and> duration (heap w c) = PNone)"
  proof (cases "\<exists>e \<in> set ?before. duration (heap w e) = PNone")
    case True
    then show ?thesis using sl by (simp add: estimate_time_until_def)
  next
    case False
    show ?thesis
    proof (cases "(\<exists>s. py_sum ar 0 ?ds = Inr s) \<and> (\<exists>c. accounted pl = Some c \<and> duration (heap w c) = PNone)")
      case True
      then obtain s c where "py_sum ar 0 ?ds = Inr s" "accounted pl = Some c" "duration (heap w c) = PNone"
        by blast
      then have "estimate_time_until ar w q position pl = Inl InvalidDataError"
        using sl False acc by (simp add: estimate_time_until_def)
      with True show ?thesis by simp
    next
      case cur: False
      from formed[OF False cur] formed_error
      have "estimate_time_until ar w q position pl \<noteq> Inl InvalidDataError" by simp
      with False cur show ?thesis by blast
    qed
  qed
  have unfailing: "estimate_time_until ar w q position pl = ?formed"
    if "estimate_time_until ar w q position pl \<noteq> Inl InvalidDataError"
    using that first formed by blast
  have second: "(\<exists>s. py_sum ar 0 ?ds = Inr s) \<and>
            estimate_time_until ar w q position pl =
              (let seconds = sum_list (map (\<lambda>e. the_seconds (duration (heap w e))) ?before)
                           + (case accounted pl of
                                None \<Rightarrow> 0
                              | Some c \<Rightarrow> the_seconds (duration (heap w c)) - the_seconds (progress pl))
               in if timedelta_holds seconds then Inr (PInt seconds) else Inl OverflowError)"
    if typed: "\<forall>e \<in> set ?before. integral (duration (heap w e))"
      and typed_cur: "\<forall>c. accounted pl = Some c \<longrightarrow>
                 integral (duration (heap w c)) \<and> integral (progress pl)"
  proof -
    from typed have k: "\<forall>v \<in> set ?ds. integral v" by auto
    have s: "py_sum ar 0 ?ds = Inr (PInt (sum_list (map (\<lambda>e. the_seconds (duration (heap w e))) ?before)))"
      using py_sum_integral[OF k, of ar 0] by (simp add: comp_def)
    have none: "\<not> (\<exists>e \<in> set ?before. duration (heap w e) = PNone)"
      using typed by (auto simp: integral_def)
    have "estimate_time_until ar w q position pl =
              (let seconds = sum_list (map (\<lambda>e. the_seconds (duration (heap w e))) ?before)
                           + (case accounted pl of
                                None \<Rightarrow> 0
                              | Some c \<Rightarrow> the_seconds (duration (heap w c)) - the_seconds (progress pl))
               in if timedelta_holds seconds then Inr (PInt seconds) else Inl OverflowError)"
    proof (cases "accounted pl")
      case None
      then show ?thesis using sl none s acc by (simp add: estimate_time_until_def)
    next
      case (Some c)
      with typed_cur obtain n m where n: "as_int (duration (heap w c)) = Some n"
        and m: "as_int (progress pl) = Some m"
        by (auto simp: integral_def)
      then have d: "duration (heap w c) \<noteq> PNone" by auto
      have sub: "py_sub ar (duration (heap w c)) (progress pl) = Inr (PInt (n - m))"
        using n m by (simp add: py_sub_def py_arith_def)
      show ?thesis using sl none s acc Some d sub n m
        by (simp add: estimate_time_until_def py_add_def py_arith_def the_seconds_def Let_def)
    qed
    with s show ?thesis by blast
  qed
  from first unfailing second show ?thesis by blast
qed

text \<open>
  The witness for C4: with entry 0 playing for 10 seconds, position 3 waits
  30 + 45 + 20 seconds and position 4 fails; with the entry of unknown duration playing,
  position 1 fails, for that entry is then accounted; and with that entry playing after
  the entries of \<open>2 ^ 1024\<close> seconds and of a float second, position 2 fails so, and
  position 3 does not, for there the sum raises.
\<close>

theorem estimate_time_until_insufficient_data_witness:
  "\<forall>ar. estimate_time_until ar eta_world eta_queue 3 (playing 0 10) = Inr (PInt 95) \<and>
        estimate_time_until ar eta_world eta_queue 4 (playing 0 10) = Inl InvalidDataError \<and>
        estimate_time_until ar eta_world eta_queue 1 (playing 2 0) = Inl InvalidDataError \<and>
        estimate_time_until ar probed probed_queue 2 (playing 2 0) = Inl InvalidDataError \<and>
        estimate_time_until ar probed probed_queue 3 (playing 2 0) \<noteq> Inl InvalidDataError"
proof
  fix ar
  have p: "(1::int) \<le> 3" "(3::int) - 1 \<le> sys_maxsize" "(1::int) \<le> 4" "(4::int) - 1 \<le> sys_maxsize"
     "(1::int) \<le> 1" "(1::int) - 1 \<le> sys_maxsize" "(1::int) \<le> 2" "(2::int) - 1 \<le> sys_maxsize"
    by (simp_all add: sys_maxsize_def)
  have w3: "waited eta_queue 3 = [0, 1]" and w4: "waited eta_queue 4 = [0, 1, 2]"
    and w1: "waited eta_queue 1 = []"
    and v2: "waited probed_queue 2 = [0]" and v3: "waited probed_queue 3 = [0, 1]"
    by (simp_all add: waited_def eta_queue_def probed_queue_def)
  have a: "accounted (playing r x) = Some r" "progress (playing r x) = PInt x" for r x
    by (simp_all add: accounted_def playing_def)
  have d: "duration (heap eta_world 0) = PInt 30" "duration (heap eta_world (Suc 0)) = PInt 45"
    "duration (heap eta_world 2) = PNone"
    by (simp_all add: eta_world_def URLPlaylistEntry_def)
  have f: "duration (heap probed 0) = PInt (2 ^ 1024)"
    "duration (heap probed (Suc 0)) = PFloat (Double 1 0)" "duration (heap probed 2) = PNone"
    by (simp_all add: probed_def URLPlaylistEntry_def)
  have "estimate_time_until ar eta_world eta_queue 3 (playing 0 10) = Inr (PInt 95)"
    using estimate_time_until_insufficient_data[OF p(1,2), where ar = ar and w = eta_world
        and q = eta_queue and pl = "playing 0 10"]
    by (simp add: w3 a d integral_def the_seconds_def timedelta_holds_def)
  moreover have "estimate_time_until ar eta_world eta_queue 4 (playing 0 10) = Inl InvalidDataError"
    using estimate_time_until_insufficient_data[OF p(3,4), where ar = ar and w = eta_world
        and q = eta_queue and pl = "playing 0 10"]
    by (simp add: w4 a d)
  moreover have "estimate_time_until ar eta_world eta_queue 1 (playing 2 0) = Inl InvalidDataError"
    using estimate_time_until_insufficient_data[OF p(5,6), where ar = ar and w = eta_world
        and q = eta_queue and pl = "playing 2 0"]
    by (simp add: w1 a d)
  moreover have "estimate_time_until ar probed probed_queue 2 (playing 2 0) = Inl InvalidDataError"
    using estimate_time_until_insufficient_data[OF p(7,8), where ar = ar and w = probed
        and q = probed_queue and pl = "playing 2 0"]
    by (simp add: v2 a f)
  moreover have "estimate_time_until ar probed probed_queue 3 (playing 2 0) \<noteq> Inl InvalidDataError"
    using estimate_time_until_insufficient_data[OF p(1,2), where ar = ar and w = probed
        and q = probed_queue and pl = "playing 2 0"]
    by (simp add: v3 a f int_fits_float_def)
  ultimately show "estimate_time_until ar eta_world eta_queue 3 (playing 0 10) = Inr (PInt 95) \<and>
        estimate_time_until ar eta_world eta_queue 4 (playing 0 10) = Inl InvalidDataError \<and>
        estimate_time_until ar eta_world eta_queue 1 (playing 2 0) = Inl InvalidDataError \<and>
        estimate_time_until ar probed probed_queue 2 (playing 2 0) = Inl InvalidDataError \<and>
        estimate_time_until ar probed probed_queue 3 (playing 2 0) \<noteq> Inl InvalidDataError"
    by simp
qed

subsection \<open>Adding entries\<close>

text \<open>The definitions that evaluate an add or an import on the example environment.\<close>

lemmas playlist_eval = new_world_def new_playlist_def new_emitter_def studio_def video_def live_def
  extract_info_def safe_extract_info_def stream_info_def lookup_def py_or_def alloc_def
  add_entry_private_def emit_def peek_def get_ready_future_def is_downloaded_def
  URLPlaylistEntry_def StreamPlaylistEntry_def queue_urls_def Let_def

text \<open>
  Requesting readiness leaves class and URL of every entry alone; \<^verbatim>\<open>_add_entry\<close>
  raises nothing and puts the entry at the front or at the back.
\<close>

lemma get_ready_future_frame:
  "cls (heap (snd (get_ready_future w r)) x) = cls (heap w x)"
  "url (heap (snd (get_ready_future w r)) x) = url (heap w x)"
  "allocated (snd (get_ready_future w r)) = allocated w"
  by (simp_all add: get_ready_future_def Let_def)

lemma add_entry_private_result:
  assumes "add_entry_private env w q e head = (r, w', q')"
  shows "r = None \<and> entries q' = (if head then e # entries q else entries q @ [e])
         \<and> (\<forall>x. cls (heap w' x) = cls (heap w x) \<and> url (heap w' x) = url (heap w x))
         \<and> allocated w' = allocated w"
proof -
  let ?q1 = "q\<lparr>entries := (if head then e # entries q else entries q @ [e])\<rparr>"
  obtain x em where em: "emit (listener_body env) (listeners ?q1) ''entry-added'' e = (x, em)"
    by (cases "emit (listener_body env) (listeners ?q1) ''entry-added'' e")
  have "x = None" using emit_never_raises[of "listener_body env" "listeners ?q1" "''entry-added''" e] em
    by simp
  with em assms show ?thesis
    by (auto simp: add_entry_private_def Let_def get_ready_future_frame split: if_splits)
qed

text \<open>What a successful \<^verbatim>\<open>add_stream_entry\<close> and a successful \<^verbatim>\<open>add_entry\<close> have done.\<close>

lemma add_stream_entry_result:
  assumes "add_stream_entry env w q u info0 m = Inr ((e, pos), w', q')"
  shows "entries q' = entries q @ [e] \<and> pos = int (length (entries q')) \<and> cls (heap w' e) = Stream
         \<and> e = allocated w \<and> allocated w' = Suc (allocated w) \<and> url (heap w' e) = PStr u
         \<and> (\<forall>x. x \<noteq> e \<longrightarrow> cls (heap w' x) = cls (heap w x) \<and> url (heap w' x) = url (heap w x))"
proof (cases "stream_info env u info0")
  case (Inl x)
  with assms show ?thesis by (simp add: add_stream_entry_def)
next
  case (Inr v)
  show ?thesis
  proof (cases v)
    case (PDict info)
    let ?d = "if truthy (lookup info ''extractor'' PNone) then lookup info ''url'' PNone else PStr u"
    let ?t = "if lookup info ''extractor'' PNone = PStr ''twitch:stream''
              then lookup info ''description'' PNone else lookup info ''title'' (PStr ''Untitled'')"
    let ?w1 = "snd (alloc w (StreamPlaylistEntry (PStr u) ?t ?d m))"
    obtain r w2 q2 where p: "add_entry_private env ?w1 q (allocated w) False = (r, w2, q2)"
      by (cases "add_entry_private env ?w1 q (allocated w) False") auto
    from add_entry_private_result[OF p] have r: "r = None" and
      f: "entries q2 = entries q @ [allocated w]"
         "\<forall>x. cls (heap w2 x) = cls (heap ?w1 x) \<and> url (heap w2 x) = url (heap ?w1 x)"
         "allocated w2 = allocated ?w1" by simp_all
    have "\<not> (lookup info ''is_live'' PNone = PNone \<and> lookup info ''extractor'' PNone \<noteq> PStr ''generic'')"
      using assms Inr PDict by (auto simp: add_stream_entry_def split: if_splits)
    with assms Inr PDict p r have "e = allocated w" "pos = int (length (entries q2))" "w' = w2" "q' = q2"
      by (auto simp: add_stream_entry_def Let_def alloc_def)
    with f show ?thesis by (simp add: alloc_def StreamPlaylistEntry_def)
  qed (use assms Inr in \<open>simp_all add: add_stream_entry_def\<close>)
qed

lemma add_entry_cases:
  assumes "add_entry env w q u head m = Inr ((e, pos), w', q')"
  shows "(\<exists>info. add_stream_entry env w q u info m = Inr ((e, pos), w', q')) \<or>
         (\<exists>t d x. add_entry_private env (snd (alloc w (URLPlaylistEntry (PStr u) t d x m))) q (allocated w) head
                     = (None, w', q') \<and> e = allocated w
                   \<and> pos = (if head then 1 else int (length (entries q'))))"
  using assms
  by (auto simp: add_entry_def Let_def alloc_def
           split: sum.splits pyval.splits if_splits prod.splits option.splits content_verdict.splits)

lemma add_entry_result:
  assumes "add_entry env w q u head m = Inr ((e, pos), w', q')"
  shows "e = allocated w \<and> allocated w' = Suc (allocated w) \<and> url (heap w' e) = PStr u
         \<and> (\<forall>x. x \<noteq> e \<longrightarrow> cls (heap w' x) = cls (heap w x) \<and> url (heap w' x) = url (heap w x))
         \<and> (cls (heap w' e) = URL \<and> entries q' = (if head then e # entries q else entries q @ [e])
                \<and> pos = (if head then 1 else int (length (entries q')))
            \<or> cls (heap w' e) = Stream \<and> entries q' = entries q @ [e] \<and> pos = int (length (entries q')))"
  using add_entry_cases[OF assms]
proof (elim disjE exE conjE)
  fix info assume "add_stream_entry env w q u info m = Inr ((e, pos), w', q')"
  from add_stream_entry_result[OF this] show ?thesis by auto
next
  fix t d x
  assume p: "add_entry_private env (snd (alloc w (URLPlaylistEntry (PStr u) t d x m))) q (allocated w) head
               = (None, w', q')"
    and e: "e = allocated w" and pos: "pos = (if head then 1 else int (length (entries q')))"
  from add_entry_private_result[OF p] e pos show ?thesis
    by (simp add: alloc_def URLPlaylistEntry_def)
qed

text \<open>
  C6, as stated, fails on the code: when the extraction result of \<^verbatim>\<open>C\<close> is a live
  stream, \<^verbatim>\<open>add_entry(C, head=True)\<close> hands over to \<^verbatim>\<open>add_stream_entry\<close>, which has
  no \<^verbatim>\<open>head\<close>; the queue is \<open>[A, B, C]\<close> and the position returned is 3.
\<close>

theorem add_entry_position_counterexample:
  "adds_summary studio [(''A'', False), (''B'', False), (''C-live'', True)] =
     Inr ([1, 2, 3], [PStr ''A'', PStr ''B'', PStr ''C-live'']) \<and>
   adds_summary studio [(''A'', False), (''B'', False), (''C-live'', True)] \<noteq>
     Inr ([1, 2, 1], [PStr ''C-live'', PStr ''A'', PStr ''B''])"
  by (simp add: adds_summary_def add_entry_def add_stream_entry_def playlist_eval)

text \<open>
  C6, amended.  A successful \<^verbatim>\<open>add_entry\<close> that makes a URL entry (the result is not
  handed over to stream handling) puts it at the back and returns the new length of the
  queue, or with \<^verbatim>\<open>head\<close> puts it at the front and returns 1.  One that makes a
  stream entry puts it at the back and returns the new length, whatever \<^verbatim>\<open>head\<close> is.
  So from the empty queue, add(A), add(B), add(C, head) that make URL entries return
  1, 2 and 1 and leave the queue \<open>[C, A, B]\<close>.
\<close>

theorem add_entry_position:
  "(add_entry env w q u head m = Inr ((e, pos), w', q') \<longrightarrow>
      (cls (heap w' e) = URL \<longrightarrow>
         entries q' = (if head then e # entries q else entries q @ [e]) \<and>
         pos = (if head then 1 else int (length (entries q')))) \<and>
      (cls (heap w' e) = Stream \<longrightarrow>
         entries q' = entries q @ [e] \<and> pos = int (length (entries q')))) \<and>
   (entries q0 = [] \<and>
    adds env m w0 q0 [(a, False), (b, False), (c, True)] = Inr (positions, w3, q3) \<and>
    (\<forall>r \<in> set (entries q3). cls (heap w3 r) = URL) \<longrightarrow>
      positions = [1, 2, 1] \<and> queue_urls w3 q3 = [PStr c, PStr a, PStr b])"
proof -
  have single: "add_entry env w q u head m = Inr ((e, pos), w', q') \<longrightarrow>
      (cls (heap w' e) = URL \<longrightarrow>
         entries q' = (if head then e # entries q else entries q @ [e]) \<and>
         pos = (if head then 1 else int (length (entries q')))) \<and>
      (cls (heap w' e) = Stream \<longrightarrow>
         entries q' = entries q @ [e] \<and> pos = int (length (entries q')))"
  proof
    assume r: "add_entry env w q u head m = Inr ((e, pos), w', q')"
    from add_entry_result[OF r]
    show "(cls (heap w' e) = URL \<longrightarrow>
         entries q' = (if head then e # entries q else entries q @ [e]) \<and>
         pos = (if head then 1 else int (length (entries q')))) \<and>
      (cls (heap w' e) = Stream \<longrightarrow>
         entries q' = entries q @ [e] \<and> pos = int (length (entries q')))"
      by auto
  qed
  have three: "entries q0 = [] \<and>
    adds env m w0 q0 [(a, False), (b, False), (c, True)] = Inr (positions, w3, q3) \<and>
    (\<forall>r \<in> set (entries q3). cls (heap w3 r) = URL) \<longrightarrow>
      positions = [1, 2, 1] \<and> queue_urls w3 q3 = [PStr c, PStr a, PStr b]"
  proof
  assume h: "entries q0 = [] \<and>
    adds env m w0 q0 [(a, False), (b, False), (c, True)] = Inr (positions, w3, q3) \<and>
    (\<forall>r \<in> set (entries q3). cls (heap w3 r) = URL)"
  then obtain ea pa w1 q1 eb pb w2 q2 ec pc where
    r1: "add_entry env w0 q0 a False m = Inr ((ea, pa), w1, q1)" and
    r2: "add_entry env w1 q1 b False m = Inr ((eb, pb), w2, q2)" and
    r3: "add_entry env w2 q2 c True m = Inr ((ec, pc), w3, q3)" and
    ps: "positions = [pa, pb, pc]"
    by (auto split: sum.splits prod.splits)
  note f1 = add_entry_result[OF r1] and f2 = add_entry_result[OF r2] and f3 = add_entry_result[OF r3]
  have ids: "ea = allocated w0" "eb = Suc (allocated w0)" "ec = Suc (Suc (allocated w0))"
    using f1 f2 f3 by simp_all
  have ne: "ea \<noteq> eb" "ea \<noteq> ec" "eb \<noteq> ec" using ids by simp_all
  have fr2: "\<And>x. x \<noteq> eb \<Longrightarrow> cls (heap w2 x) = cls (heap w1 x) \<and> url (heap w2 x) = url (heap w1 x)"
    using f2 by blast
  have fr3: "\<And>x. x \<noteq> ec \<Longrightarrow> cls (heap w3 x) = cls (heap w2 x) \<and> url (heap w3 x) = url (heap w2 x)"
    using f3 by blast
  have u1: "url (heap w1 ea) = PStr a" using f1 by blast
  have u2: "url (heap w2 eb) = PStr b" using f2 by blast
  have u3: "url (heap w3 ec) = PStr c" using f3 by blast
  have m3: "ec \<in> set (entries q3)" "set (entries q2) \<subseteq> set (entries q3)" using f3 by auto
  have m2: "eb \<in> set (entries q2)" "set (entries q1) \<subseteq> set (entries q2)" using f2 by auto
  have m1: "ea \<in> set (entries q1)" using f1 by auto
  from h m1 m2 m3 have c3: "cls (heap w3 ea) = URL" "cls (heap w3 eb) = URL" "cls (heap w3 ec) = URL"
    by auto
  have cb: "cls (heap w2 eb) = URL" using c3(2) fr3[of eb] ne by simp
  have ca: "cls (heap w1 ea) = URL" using c3(1) fr3[of ea] fr2[of ea] ne by simp
  have q1: "entries q1 = [ea]" "pa = 1" using f1 ca h by auto
  have q2: "entries q2 = [ea, eb]" "pb = 2" using f2 cb q1 by auto
  have q3: "entries q3 = [ec, ea, eb]" "pc = 1" using f3 c3(3) q2 by auto
  have u: "url (heap w3 ec) = PStr c" "url (heap w3 eb) = PStr b" "url (heap w3 ea) = PStr a"
    using u1 u2 u3 fr3[of eb] fr3[of ea] fr2[of ea] ne by simp_all
  show "positions = [1, 2, 1] \<and> queue_urls w3 q3 = [PStr c, PStr a, PStr b]"
    using ps q1 q2 q3 u by (simp add: queue_urls_def)
  qed
  from single three show ?thesis by (rule conjI)
qed

text \<open>The witness for C6: three videos added to the empty queue, the third at the head.\<close>

theorem add_entry_position_witness:
  "adds_summary studio [(''A'', False), (''B'', False), (''C'', True)] =
     Inr ([1, 2, 1], [PStr ''C'', PStr ''A'', PStr ''B''])"
proof -
  let ?reqs = "[(''A'', False), (''B'', False), (''C'', True)]"
  have "case adds studio [] new_world new_playlist ?reqs of
          Inl e \<Rightarrow> False
        | Inr (ps, w3, q3) \<Rightarrow> (\<forall>r \<in> set (entries q3). cls (heap w3 r) = URL)"
    by (simp add: add_entry_def playlist_eval)
  then obtain ps w3 q3 where
    r: "adds studio [] new_world new_playlist ?reqs = Inr (ps, w3, q3)" and
    c: "\<forall>r \<in> set (entries q3). cls (heap w3 r) = URL"
    by (auto split: sum.splits)
  have e: "entries new_playlist = []" by (simp add: new_playlist_def)
  from add_entry_position[where ?q0.0 = new_playlist and env = studio and m = "[]"
      and ?w0.0 = new_world and a = "''A''" and b = "''B''" and c = "''C''"
      and positions = ps and ?w3.0 = w3 and ?q3.0 = q3]
    e r c
  have "ps = [1, 2, 1] \<and> queue_urls w3 q3 = [PStr ''C'', PStr ''A'', PStr ''B'']" by blast
  with r show ?thesis by (simp add: adds_summary_def)
qed

text \<open>
  C2.  What the code does with the listing \<open>[x1, x2, x3]\<close> whose second item cannot be
  constructed (it has no \<^verbatim>\<open>webpage_url\<close>).  \<^verbatim>\<open>import_from\<close> reverses a copy of
  the listing for a head import but iterates the listing itself, so the items are put
  at the front one after the other in listing order, and the final reversal of
  \<^verbatim>\<open>entry_list\<close> then returns them reversed as well: at the head both the returned
  list and the queue are \<open>[x3, x1]\<close>, at the tail both are \<open>[x1, x3]\<close>.
\<close>

theorem import_from_head_reverses:
  "import_summary studio True = Inr ([PStr ''x3'', PStr ''x1''], 1, [PStr ''x3'', PStr ''x1'']) \<and>
   import_summary studio False = Inr ([PStr ''x1'', PStr ''x3''], 1, [PStr ''x1'', PStr ''x3''])"
  by (simp add: import_summary_def import_from_def import_item_def playlist_eval)

subsection \<open>Readiness and advancing the queue\<close>

text \<open>
  Triggering the futures: a pending future among the waiters gets the outcome, and one
  that has it keeps it.
\<close>

lemma settle_length: "length (foldl (settle out) fs ws) = length fs"
  by (induction ws arbitrary: fs) (simp_all add: settle_def)

lemma settle_keeps:
  "fs ! f = out \<Longrightarrow> out \<noteq> Pending \<Longrightarrow> foldl (settle out) fs ws ! f = out"
proof (induction ws arbitrary: fs)
  case Nil
  then show ?case by simp
next
  case (Cons g ws)
  have "settle out fs g ! f = out"
    using Cons.prems by (cases "g = f") (simp_all add: settle_def)
  from Cons.IH[OF this Cons.prems(2)] show ?case by simp
qed

lemma settle_waiting:
  "f \<in> set ws \<Longrightarrow> f < length fs \<Longrightarrow> fs ! f = Pending \<Longrightarrow> out \<noteq> Pending
     \<Longrightarrow> foldl (settle out) fs ws ! f = out"
proof (induction ws arbitrary: fs)
  case Nil
  then show ?case by simp
next
  case (Cons g ws)
  show ?case
  proof (cases "g = f")
    case True
    have "settle out fs g ! f = out" using True Cons.prems by (simp add: settle_def)
    from settle_keeps[OF this Cons.prems(4)] show ?thesis by simp
  next
    case False
    have s: "settle out fs g ! f = Pending" "f < length (settle out fs g)"
      using False Cons.prems by (simp_all add: settle_def)
    from False Cons.prems(1) have "f \<in> set ws" by simp
    from Cons.IH[OF this s(2) s(1) Cons.prems(4)] show ?thesis by simp
  qed
qed

text \<open>The end of a URL download resolves every pending waiter of the entry.\<close>

lemma download_finish_resolves:
  assumes t: "tasks w ! i = Task r Awaiting_download"
    and f: "f \<in> set (waiting_futures (heap w r))" "f < length (futures w)" "futures w ! f = Pending"
  shows "futures (download_finish w i (Body_done fname dur aopt)) ! f = Result (PObj r)"
    and "futures (download_finish w i (Body_raised fname dur e)) ! f = Exception e"
  using t f
  by (simp_all add: download_finish_def for_each_future_def Let_def settle_waiting)

text \<open>What \<^verbatim>\<open>get_ready_future\<close> does, and what it leaves alone.\<close>

lemma get_ready_future_requested:
  "readiness_requested w (snd (get_ready_future w r)) r (length (futures w))"
  by (simp add: readiness_requested_def get_ready_future_def Let_def nth_append)

lemma get_ready_future_fst: "fst (get_ready_future w r) = length (futures w)"
  by (simp add: get_ready_future_def Let_def)

lemma get_ready_future_other:
  "x \<noteq> r \<Longrightarrow> heap (snd (get_ready_future w r)) x = heap w x"
  by (simp add: get_ready_future_def Let_def)

lemma get_ready_future_length:
  "length (futures (snd (get_ready_future w r))) = Suc (length (futures w))"
  by (simp add: get_ready_future_def Let_def)

lemma readiness_requested_kept:
  assumes "readiness_requested w w1 n f" "f < length (futures w1)" "n \<noteq> r"
  shows "readiness_requested w (snd (get_ready_future w1 r)) n f"
  using assms
  by (auto simp: readiness_requested_def get_ready_future_def Let_def nth_append)

text \<open>
  What \<^verbatim>\<open>get_next_entry\<close> does before it awaits.  On an empty queue it returns
  \<^verbatim>\<open>None\<close> and changes nothing.  On a queue of distinct entries, with
  \<^verbatim>\<open>predownload_next\<close> true (the default), it removes the head, which is then neither
  the new head nor anywhere in the queue; it has requested readiness of the new head
  when there is one; and it ends by awaiting the readiness future of the popped entry:
  a future resolved with the popped entry at once when the entry is downloaded, and
  otherwise pending among the entry's waiters with a download task scheduled.  When a
  URL download of an entry ends, every future still pending among its waiters is
  resolved, with the entry on success and with the exception on failure.
\<close>

lemma get_next_entry_pops_and_prefetches:
  "(entries q = [] \<longrightarrow>
      get_next_entry w q predownload_next = (Return_none, w, q) \<and>
      outcome w Return_none = Some (Inr PNone)) \<and>
   (entries q = entry # rest \<and> distinct (entries q) \<longrightarrow>
      (\<exists>future w'.
         get_next_entry w q True = (Return_await future, w', q\<lparr>entries := rest\<rparr>) \<and>
         entry \<notin> set rest \<and>
         peek (q\<lparr>entries := rest\<rparr>) \<noteq> Some entry \<and>
         (\<forall>n. peek (q\<lparr>entries := rest\<rparr>) = Some n \<longrightarrow>
              readiness_requested w w' n (length (futures w))) \<and>
         readiness_requested w w' entry future \<and>
         (is_downloaded (heap w entry) \<longrightarrow>
            outcome w' (Return_await future) = Some (Inr (PObj entry))))) \<and>
   (tasks w2 ! i = Task r Awaiting_download \<and> f \<in> set (waiting_futures (heap w2 r)) \<and>
    f < length (futures w2) \<and> futures w2 ! f = Pending \<longrightarrow>
      outcome (download_finish w2 i (Body_done fname dur aopt)) (Return_await f) = Some (Inr (PObj r)) \<and>
      outcome (download_finish w2 i (Body_raised fname dur e)) (Return_await f) = Some (Inl e))"
proof -
  have empty: "entries q = [] \<longrightarrow>
      get_next_entry w q predownload_next = (Return_none, w, q) \<and>
      outcome w Return_none = Some (Inr PNone)"
    by (simp add: get_next_entry_def outcome_def)
  have pop: "entries q = entry # rest \<and> distinct (entries q) \<longrightarrow>
      (\<exists>future w'.
         get_next_entry w q True = (Return_await future, w', q\<lparr>entries := rest\<rparr>) \<and>
         entry \<notin> set rest \<and>
         peek (q\<lparr>entries := rest\<rparr>) \<noteq> Some entry \<and>
         (\<forall>n. peek (q\<lparr>entries := rest\<rparr>) = Some n \<longrightarrow>
              readiness_requested w w' n (length (futures w))) \<and>
         readiness_requested w w' entry future \<and>
         (is_downloaded (heap w entry) \<longrightarrow>
            outcome w' (Return_await future) = Some (Inr (PObj entry))))"
  proof
    assume h: "entries q = entry # rest \<and> distinct (entries q)"
    then have nin: "entry \<notin> set rest" by auto
    let ?q1 = "q\<lparr>entries := rest\<rparr>"
    let ?w1 = "case peek ?q1 of None \<Rightarrow> w | Some n \<Rightarrow> snd (get_ready_future w n)"
    let ?f = "fst (get_ready_future ?w1 entry)"
    let ?w' = "snd (get_ready_future ?w1 entry)"
    have g: "get_next_entry w q True = (Return_await ?f, ?w', ?q1)"
      using h by (simp add: get_next_entry_def Let_def split: prod.splits)
    have pk: "peek ?q1 \<noteq> Some entry" using nin by (auto simp: peek_def split: list.splits)
    have same: "heap ?w1 entry = heap w entry"
      using pk by (auto simp: get_ready_future_other split: option.splits)
    have head: "\<forall>n. peek ?q1 = Some n \<longrightarrow> readiness_requested w ?w' n (length (futures w))"
    proof (intro allI impI)
      fix n assume n: "peek ?q1 = Some n"
      with pk have ne: "n \<noteq> entry" by auto
      have "readiness_requested w (snd (get_ready_future w n)) n (length (futures w))"
        by (rule get_ready_future_requested)
      moreover have "length (futures w) < length (futures (snd (get_ready_future w n)))"
        by (simp add: get_ready_future_length)
      ultimately show "readiness_requested w ?w' n (length (futures w))"
        using n ne readiness_requested_kept[of w "snd (get_ready_future w n)" n "length (futures w)" entry]
        by simp
    qed
    have "readiness_requested ?w1 ?w' entry ?f"
      using get_ready_future_requested[of ?w1 entry] by (simp add: get_ready_future_fst)
    then have popped: "readiness_requested w ?w' entry ?f"
      using same by (simp add: readiness_requested_def)
    have ready: "is_downloaded (heap w entry) \<longrightarrow>
            outcome ?w' (Return_await ?f) = Some (Inr (PObj entry))"
      using popped by (simp add: readiness_requested_def outcome_def)
    from g nin pk head popped ready
    show "\<exists>future w'.
         get_next_entry w q True = (Return_await future, w', q\<lparr>entries := rest\<rparr>) \<and>
         entry \<notin> set rest \<and>
         peek (q\<lparr>entries := rest\<rparr>) \<noteq> Some entry \<and>
         (\<forall>n. peek (q\<lparr>entries := rest\<rparr>) = Some n \<longrightarrow>
              readiness_requested w w' n (length (futures w))) \<and>
         readiness_requested w w' entry future \<and>
         (is_downloaded (heap w entry) \<longrightarrow>
            outcome w' (Return_await future) = Some (Inr (PObj entry)))"
      by blast
  qed
  have finish: "tasks w2 ! i = Task r Awaiting_download \<and> f \<in> set (waiting_futures (heap w2 r)) \<and>
    f < length (futures w2) \<and> futures w2 ! f = Pending \<longrightarrow>
      outcome (download_finish w2 i (Body_done fname dur aopt)) (Return_await f) = Some (Inr (PObj r)) \<and>
      outcome (download_finish w2 i (Body_raised fname dur e)) (Return_await f) = Some (Inl e)"
    using download_finish_resolves[of w2 i r f] by (simp add: outcome_def)
  from empty pop finish show ?thesis by blast
qed

text \<open>The definitions that evaluate a run of the loop on the examples.\<close>

lemmas loop_eval = loop_run_def download_start_def download_finish_def stream_resume_def
  for_each_future_def settle_def get_ready_future_def is_downloaded_def two_requests_def
  in_flight_def extract_info_def studio_def live_def video_def
  URLPlaylistEntry_def StreamPlaylistEntry_def Let_def

text \<open>
  C1.  What the code does on two readiness requests for a stream entry that is not
  downloaded: \<^verbatim>\<open>StreamPlaylistEntry._download\<close> has no guard on \<^verbatim>\<open>_is_downloading\<close>,
  so both tasks run the extraction (two downloads in flight); and it never triggers the
  waiting futures, so after both have returned and set the file name, both futures
  are still pending.  The same requests on a URL entry: one download in flight, and both
  futures resolved with the entry when it ends.
\<close>

theorem stream_download_not_exclusive:
  "in_flight (loop_run (dl studio) (two_requests radio) [Start 0, Start 1]) 0 = 2 \<and>
   tasks (loop_run (dl studio) (two_requests radio) [Start 0, Start 1, Resume 0, Resume 1])
     = [Task 0 Returned, Task 0 Returned] \<and>
   filename (heap (loop_run (dl studio) (two_requests radio) [Start 0, Start 1, Resume 0, Resume 1]) 0)
     = PStr ''http://live'' \<and>
   futures (loop_run (dl studio) (two_requests radio) [Start 0, Start 1, Resume 0, Resume 1])
     = [Pending, Pending] \<and>
   in_flight (loop_run (dl studio) (two_requests two_songs) [Start 0, Start 1]) 0 = 1 \<and>
   futures (loop_run (dl studio) (two_requests two_songs)
              [Start 0, Start 1, Finish 0 (Body_done (PStr ''song.m4a'') (PInt 60) ''-vn'')])
     = [Result (PObj 0), Result (PObj 0)]"
  by (simp add: loop_eval radio_def two_songs_def)

text \<open>
  C5.  What the code does on a queue whose head is a stream entry that is not
  downloaded: \<^verbatim>\<open>get_next_entry()\<close> pops the entry, schedules its download task and
  awaits its readiness future; the task runs \<^verbatim>\<open>StreamPlaylistEntry._download\<close>,
  which sets the file name and returns without triggering the waiting futures, so the
  entry is downloaded, no task is left to run, and the awaited future is still pending:
  \<^verbatim>\<open>get_next_entry\<close> never returns the popped entry.  On the queue of two songs, whose
  head is a URL entry, the awaited future is resolved with the popped entry when the
  entry's download ends.
\<close>

theorem get_next_entry_stream_head_never_returns:
  "get_next_entry radio radio_queue True
     = (Return_await 0, snd (get_ready_future radio 0), radio_queue\<lparr>entries := []\<rparr>) \<and>
   tasks (snd (get_ready_future radio 0)) = [Task 0 Not_started] \<and>
   tasks (loop_run (dl studio) (snd (get_ready_future radio 0)) [Start 0, Resume 0])
     = [Task 0 Returned] \<and>
   is_downloaded (heap (loop_run (dl studio) (snd (get_ready_future radio 0)) [Start 0, Resume 0]) 0) \<and>
   outcome (loop_run (dl studio) (snd (get_ready_future radio 0)) [Start 0, Resume 0])
     (Return_await 0) = None \<and>
   fst (get_next_entry two_songs two_songs_queue True) = Return_await 1 \<and>
   outcome (loop_run (dl studio) (fst (snd (get_next_entry two_songs two_songs_queue True)))
              [Start 1, Finish 1 (Body_done (PStr ''song.m4a'') (PInt 60) ''-vn'')])
     (Return_await 1) = Some (Inr (PObj 0))"
  by (simp add: get_next_entry_def peek_def outcome_def loop_eval radio_def radio_queue_def
        two_songs_def two_songs_queue_def split: prod.splits)

subsection \<open>Decoding a persisted queue\<close>

lemma extends_refl: "extends w w"
  by (simp add: extends_def)

lemma extends_trans: "extends w w1 \<Longrightarrow> extends w1 w2 \<Longrightarrow> extends w w2"
  by (auto simp: extends_def)

text \<open>Decoding returns a plain value as it is.\<close>

lemma plain_loads:
  "(plain v \<longrightarrow> loads ctx w v = Inr (v, w))"
  "(plain_list xs \<longrightarrow> loads_list ctx w xs = Inr (xs, w))"
  "(plain_items kvs \<longrightarrow> loads_items ctx w kvs = Inr (kvs, w))"
  by (induction ctx w v and ctx w xs and ctx w kvs rule: loads_loads_list_loads_items.induct)
     (auto simp: Serializer_deserialize_def)

text \<open>The hook, and so decoding, never raises on a soft record; neither does a list of them.\<close>

lemma hook_on_soft_record:
  assumes inj: "injected ctx" and s: "soft_record ctx (PDict kvs)"
  shows "\<exists>v w'. Serializer_deserialize ctx w kvs = Inr (v, w') \<and> extends w w' \<and>
           (\<forall>w''. extends w' w'' \<longrightarrow> decoded_as ctx w'' (PDict kvs) v)"
proof (cases "signed kvs")
  case False
  then show ?thesis by (auto simp: Serializer_deserialize_def extends_refl)
next
  case True
  with s have d: "discriminator ctx kvs \<in> {Some Not_found, Some (Class Other_class),
              Some (Class URLPlaylistEntry_class), Some (Class StreamPlaylistEntry_class)}" by simp
  then obtain m c where mc: "lookup kvs ''__module__'' PNone = PStr m" "lookup kvs ''__class__'' PNone = PStr c"
    and dl: "discriminator ctx kvs = Some (locateObj ctx (m @ ''.'' @ c))"
    by (auto simp: discriminator_def split: pyval.splits)
  let ?data = "lookup kvs ''data'' PNone"
  consider (nf) "locateObj ctx (m @ ''.'' @ c) = Not_found"
    | (other) "locateObj ctx (m @ ''.'' @ c) = Class Other_class"
    | (url) "locateObj ctx (m @ ''.'' @ c) = Class URLPlaylistEntry_class"
    | (stream) "locateObj ctx (m @ ''.'' @ c) = Class StreamPlaylistEntry_class"
    using d dl by auto
  then show ?thesis
  proof cases
    case nf
    then show ?thesis using True mc dl by (auto simp: Serializer_deserialize_def extends_refl)
  next
    case other
    then show ?thesis using True mc dl by (auto simp: Serializer_deserialize_def extends_refl)
  next
    case url
    then have h: "Serializer_deserialize ctx w kvs = entry_deserialize URLPlaylistEntry_fields ctx w ?data"
      using True mc by (simp add: Serializer_deserialize_def URLPlaylistEntry_deserialize_def)
    show ?thesis
    proof (cases "URLPlaylistEntry_fields ctx ?data")
      case (Inl e)
      then show ?thesis using h inj True url dl
        by (auto simp: entry_deserialize_def extends_refl rebuilt_def)
    next
      case (Inr entry)
      then show ?thesis using h inj True url dl
        by (auto simp: entry_deserialize_def alloc_def extends_def rebuilt_def)
    qed
  next
    case stream
    then have h: "Serializer_deserialize ctx w kvs = entry_deserialize StreamPlaylistEntry_fields ctx w ?data"
      using True mc by (simp add: Serializer_deserialize_def StreamPlaylistEntry_deserialize_def)
    show ?thesis
    proof (cases "StreamPlaylistEntry_fields ctx ?data")
      case (Inl e)
      then show ?thesis using h inj True stream dl
        by (auto simp: entry_deserialize_def extends_refl rebuilt_def)
    next
      case (Inr entry)
      then show ?thesis using h inj True stream dl
        by (auto simp: entry_deserialize_def alloc_def extends_def rebuilt_def)
    qed
  qed
qed

lemma loads_soft_record:
  assumes inj: "injected ctx" and s: "soft_record ctx rec"
  shows "\<exists>v w'. loads ctx w rec = Inr (v, w') \<and> extends w w' \<and>
           (\<forall>w''. extends w' w'' \<longrightarrow> decoded_as ctx w'' rec v)"
proof (cases rec)
  case (PDict kvs)
  with s have "plain_items kvs" by simp
  then have li: "loads_items ctx w kvs = Inr (kvs, w)" using plain_loads(3) by blast
  have eq: "loads ctx w (PDict kvs) = Serializer_deserialize ctx w kvs" using li by simp
  from s PDict have "soft_record ctx (PDict kvs)" by blast
  from hook_on_soft_record[OF inj this, of w] obtain v w' where
    "Serializer_deserialize ctx w kvs = Inr (v, w')" "extends w w'"
    "\<forall>w''. extends w' w'' \<longrightarrow> decoded_as ctx w'' (PDict kvs) v" by blast
  then show ?thesis unfolding PDict eq by blast
next
  case (PList xs)
  then show ?thesis using s plain_loads(1)[of rec ctx w] by (auto simp: extends_refl)
qed (use s in \<open>auto simp: extends_refl\<close>)

lemma loads_list_soft_records:
  assumes inj: "injected ctx"
  shows "\<forall>rec \<in> set recs. soft_record ctx rec \<Longrightarrow>
         \<exists>vs w'. loads_list ctx w recs = Inr (vs, w') \<and> length vs = length recs \<and> extends w w' \<and>
           (\<forall>w''. extends w' w'' \<longrightarrow> (\<forall>i < length recs. decoded_as ctx w'' (recs ! i) (vs ! i)))"
proof (induction recs arbitrary: w)
  case Nil
  then show ?case by (simp add: extends_refl)
next
  case (Cons rec recs)
  from Cons.prems have s: "soft_record ctx rec" and ss: "\<forall>rec \<in> set recs. soft_record ctx rec" by simp_all
  from loads_soft_record[OF inj s, of w] obtain v w1 where
    l: "loads ctx w rec = Inr (v, w1)" and e1: "extends w w1" and
    d1: "\<forall>w''. extends w1 w'' \<longrightarrow> decoded_as ctx w'' rec v" by blast
  from Cons.IH[OF ss, of w1] obtain vs w2 where
    ll: "loads_list ctx w1 recs = Inr (vs, w2)" and len: "length vs = length recs" and
    e2: "extends w1 w2" and
    d2: "\<forall>w''. extends w2 w'' \<longrightarrow> (\<forall>i < length recs. decoded_as ctx w'' (recs ! i) (vs ! i))" by blast
  have "loads_list ctx w (rec # recs) = Inr (v # vs, w2)" using l ll by simp
  moreover have "length (v # vs) = length (rec # recs)" using len by simp
  moreover have "extends w w2" using e1 e2 by (rule extends_trans)
  moreover have "\<forall>w''. extends w2 w'' \<longrightarrow>
      (\<forall>i < length (rec # recs). decoded_as ctx w'' ((rec # recs) ! i) ((v # vs) ! i))"
  proof (intro allI impI)
    fix w'' i assume x: "extends w2 w''" and i: "i < length (rec # recs)"
    show "decoded_as ctx w'' ((rec # recs) ! i) ((v # vs) ! i)"
    proof (cases i)
      case 0
      then show ?thesis using d1 extends_trans[OF e2 x] by simp
    next
      case (Suc j)
      then show ?thesis using d2 x i by simp
    qed
  qed
  ultimately show ?case by blast
qed

text \<open>
  C9, as stated, fails on the code: a record whose discriminator names
  \<^verbatim>\<open>BasePlaylistEntry\<close>, which is no entry variant that can be decoded, makes the hook call
  the \<^verbatim>\<open>_deserialize\<close> inherited from \<^verbatim>\<open>Serializable\<close>, which raises
  NotImplementedError; the decoding of the whole queue ends with that exception, the
  intact record before it included.
\<close>

theorem queue_decoding_counterexample:
  "loads repo_context new_world
     (queue_record [entry_record ''URLPlaylistEntry'' song_payload, entry_record ''BasePlaylistEntry'' []])
   = Inl NotImplementedError"
  by (simp add: queue_record_def entry_record_def song_payload_def repo_context_def repo_locate_def
        Serializer_deserialize_def signed_def lookup_def URLPlaylistEntry_deserialize_def
        entry_deserialize_def injected_def URLPlaylistEntry_fields_def decode_meta_def meta_field_def
        bind_def alloc_def new_world_def Let_def)

text \<open>
  C9, amended.  With the decoding context present, decoding a queue record never raises
  when every entry record is soft, and it rebuilds the queue position by position: a
  record whose discriminator resolves to nothing or to a class that is not
  \<^verbatim>\<open>Serializable\<close> stays in the queue undecoded, a record of an entry class whose
  fields cannot be built (a required field is absent) becomes \<^verbatim>\<open>None\<close>, and every
  other record of an entry class becomes the entry its fields build, whatever the
  records around it are.
\<close>

theorem queue_decoding_tolerates_soft_records:
  assumes inj: "injected ctx"
    and pl: "locateObj ctx ''musicbot.playlist.Playlist'' = Class Playlist_class"
    and soft: "\<forall>rec \<in> set recs. soft_record ctx rec"
  shows "\<exists>vs w'. loads ctx w (queue_record recs) = Inr (PPlaylist vs, w') \<and>
           length vs = length recs \<and>
           (\<forall>i < length recs. decoded_as ctx w' (recs ! i) (vs ! i))"
proof -
  from loads_list_soft_records[OF inj soft, of w] obtain vs w' where
    ll: "loads_list ctx w recs = Inr (vs, w')" and len: "length vs = length recs" and
    d: "\<forall>w''. extends w' w'' \<longrightarrow> (\<forall>i < length recs. decoded_as ctx w'' (recs ! i) (vs ! i))"
    by blast
  have inner: "loads ctx w (PDict [(''entries'', PList recs)]) = Inr (PDict [(''entries'', PList vs)], w')"
    using ll by (simp add: Serializer_deserialize_def signed_def)
  have "loads ctx w (queue_record recs) = Inr (PPlaylist vs, w')"
    using inner inj pl
    by (simp add: queue_record_def Serializer_deserialize_def signed_def lookup_def
          Playlist_deserialize_def bind_def)
  with len d extends_refl[of w'] show ?thesis by blast
qed

text \<open>
  The witness for C9: the record without title becomes \<^verbatim>\<open>None\<close>, the record of the
  unknown class stays as it is, and the complete record after them is rebuilt.
\<close>

lemma mixed_records_soft: "\<forall>rec \<in> set mixed_records. soft_record repo_context rec"
  by (simp add: mixed_records_def entry_record_def song_payload_def signed_def discriminator_def
        lookup_def repo_context_def repo_locate_def)

theorem queue_decoding_tolerates_soft_records_witness:
  "\<exists>r w'. loads repo_context new_world (queue_record mixed_records)
            = Inr (PPlaylist [PNone, entry_record ''FilePlaylistEntry'' [], PObj r], w') \<and>
          heap w' r = song_entry"
proof -
  have inj: "injected repo_context" by (simp add: injected_def repo_context_def)
  have pl: "locateObj repo_context ''musicbot.playlist.Playlist'' = Class Playlist_class"
    by (simp add: repo_context_def repo_locate_def)
  from queue_decoding_tolerates_soft_records[OF inj pl mixed_records_soft, of new_world]
  obtain vs w' where
    l: "loads repo_context new_world (queue_record mixed_records) = Inr (PPlaylist vs, w')" and
    len: "length vs = length mixed_records" and
    d: "\<forall>i < length mixed_records. decoded_as repo_context w' (mixed_records ! i) (vs ! i)"
    by blast
  from len obtain a b c where vs: "vs = [a, b, c]"
    by (auto simp: mixed_records_def length_Suc_conv)
  have f: "URLPlaylistEntry_fields repo_context (PDict song_payload) = Inr song_entry"
       "URLPlaylistEntry_fields repo_context (PDict [(''url'', PStr ''https://c'')]) = Inl KeyError"
    by (simp_all add: URLPlaylistEntry_fields_def song_payload_def song_entry_def bind_def
          decode_meta_def meta_field_def repo_context_def URLPlaylistEntry_def)
  have disc: "discriminator repo_context
       [(''__class__'', PStr ''URLPlaylistEntry''), (''__module__'', PStr ''musicbot.entry''), (''data'', PDict p)]
       = Some (Class URLPlaylistEntry_class)"
     "discriminator repo_context
       [(''__class__'', PStr ''FilePlaylistEntry''), (''__module__'', PStr ''musicbot.entry''), (''data'', PDict p)]
       = Some Not_found" for p
    by (simp_all add: discriminator_def lookup_def repo_context_def repo_locate_def)
  have l3: "length mixed_records = 3" by (simp add: mixed_records_def)
  have n: "mixed_records ! 0 = entry_record ''URLPlaylistEntry'' [(''url'', PStr ''https://c'')]"
    "mixed_records ! 1 = entry_record ''FilePlaylistEntry'' []"
    "mixed_records ! 2 = entry_record ''URLPlaylistEntry'' song_payload"
    by (simp_all add: mixed_records_def)
  from d[rule_format, of 0] d[rule_format, of 1] d[rule_format, of 2] l3 n vs
  have "decoded_as repo_context w' (entry_record ''URLPlaylistEntry'' [(''url'', PStr ''https://c'')]) a"
    "decoded_as repo_context w' (entry_record ''FilePlaylistEntry'' []) b"
    "decoded_as repo_context w' (entry_record ''URLPlaylistEntry'' song_payload) c"
    by simp_all
  then have "a = PNone" "b = entry_record ''FilePlaylistEntry'' []"
    "\<exists>r. c = PObj r \<and> heap w' r = song_entry"
    using f disc
    by (auto simp: entry_record_def signed_def lookup_def rebuilt_def split: pyval.splits)
  with l vs show ?thesis by auto
qed

subsection \<open>One download per URL entry\<close>

lemma filter_update_length:
  "i < length xs \<Longrightarrow>
   length (filter P (xs[i := y])) + (if P (xs ! i) then 1 else 0)
     = length (filter P xs) + (if P y then 1 else 0)"
proof (induction xs arbitrary: i)
  case Nil
  then show ?case by simp
next
  case (Cons x xs)
  then show ?case by (cases i) auto
qed

lemma list_all_update:
  "list_all P xs \<Longrightarrow> P y \<Longrightarrow> list_all P (xs[i := y])"
  by (induction xs arbitrary: i) (auto split: nat.splits)

lemma routine_of_cong:
  "(\<And>r. cls (heap w' r) = cls (heap w r)) \<Longrightarrow> routine_of w' t = routine_of w t"
  by (cases t; cases "case t of Task r st \<Rightarrow> st") auto

text \<open>
  The invariant is kept by a readiness request and by every step of the loop: the guard
  of \<^verbatim>\<open>URLPlaylistEntry._download\<close> lets a task in only when the flag is not set.
\<close>

lemma url_exclusive_get_ready_future:
  assumes "url_exclusive w"
  shows "url_exclusive (snd (get_ready_future w r))"
proof -
  let ?w' = "snd (get_ready_future w r)"
  have c: "\<And>x. cls (heap ?w' x) = cls (heap w x)" "\<And>x. is_downloading (heap ?w' x) = is_downloading (heap w x)"
    by (simp_all add: get_ready_future_def Let_def)
  have t: "tasks ?w' = tasks w \<or> tasks ?w' = tasks w @ [Task r Not_started]"
    by (simp add: get_ready_future_def Let_def)
  have "list_all (routine_of ?w') (tasks ?w')"
    using assms t routine_of_cong[of ?w' w, OF c(1)]
    by (auto simp: url_exclusive_def list_all_iff)
  moreover have "\<And>x. in_flight ?w' x = in_flight w x"
    using t by (auto simp: in_flight_def)
  ultimately show ?thesis using assms c by (simp add: url_exclusive_def)
qed


lemma in_flight_update:
  assumes "i < length (tasks w)"
  shows "length (filter (in_routine x) ((tasks w)[i := t])) + (if in_routine x (tasks w ! i) then 1 else 0)
           = in_flight w x + (if in_routine x t then 1 else 0)"
  using filter_update_length[OF assms, of "in_routine x" t] by (simp add: in_flight_def)

lemma url_exclusive_start:
  assumes ex: "url_exclusive w" and i: "i < length (tasks w)"
  shows "url_exclusive (download_start w i)"
proof (cases "tasks w ! i")
  case (Task r st)
  show ?thesis
  proof (cases "st = Not_started")
    case False
    then show ?thesis using ex Task by (cases st) (simp_all add: download_start_def)
  next
    case True
    note ns = Task[unfolded True]
    have all: "list_all (routine_of w) (tasks w)" using ex by (simp add: url_exclusive_def)
    have fl: "\<And>x. cls (heap w x) = URL \<Longrightarrow> in_flight w x = (if is_downloading (heap w x) then 1 else 0)"
      using ex by (simp add: url_exclusive_def)
    show ?thesis
    proof (cases "cls (heap w r)")
      case URL
      show ?thesis
      proof (cases "is_downloading (heap w r)")
        case True
        let ?w' = "w\<lparr>tasks := (tasks w)[i := Task r Returned]\<rparr>"
        have w': "download_start w i = ?w'" using ns URL True by (simp add: download_start_def)
        have "list_all (routine_of ?w') (tasks ?w')"
          using list_all_update[OF all, of "Task r Returned" i] routine_of_cong[of ?w' w] by (simp add: list_all_iff)
        moreover have "\<And>x. in_flight ?w' x = in_flight w x"
          using in_flight_update[OF i, of _ "Task r Returned"] ns by (simp add: in_flight_def)
        ultimately show ?thesis using w' fl by (simp add: url_exclusive_def)
      next
        case False
        let ?w' = "w\<lparr>heap := (heap w)(r := (heap w r)\<lparr>is_downloading := True\<rparr>),
                      tasks := (tasks w)[i := Task r Awaiting_download]\<rparr>"
        have w': "download_start w i = ?w'" using ns URL False by (simp add: download_start_def Let_def)
        have c: "\<And>x. cls (heap ?w' x) = cls (heap w x)" by simp
        have "list_all (routine_of w) ((tasks w)[i := Task r Awaiting_download])"
          using list_all_update[OF all, of "Task r Awaiting_download" i] URL by simp
        then have "list_all (routine_of ?w') (tasks ?w')"
          using routine_of_cong[of ?w' w, OF c] by (simp add: list_all_iff)
        moreover have "\<And>x. in_flight ?w' x = in_flight w x + (if x = r then 1 else 0)"
          using in_flight_update[OF i, of _ "Task r Awaiting_download"] ns by (simp add: in_flight_def)
        ultimately show ?thesis using w' fl URL False by (auto simp: url_exclusive_def)
      qed
    next
      case Stream
      let ?w' = "w\<lparr>heap := (heap w)(r := (heap w r)\<lparr>is_downloading := True\<rparr>),
                    tasks := (tasks w)[i := Task r (Awaiting_extract False)]\<rparr>"
      have w': "download_start w i = ?w'" using ns Stream by (simp add: download_start_def Let_def)
      have c: "\<And>x. cls (heap ?w' x) = cls (heap w x)" by simp
      have "list_all (routine_of w) ((tasks w)[i := Task r (Awaiting_extract False)])"
        using list_all_update[OF all, of "Task r (Awaiting_extract False)" i] Stream by simp
      then have "list_all (routine_of ?w') (tasks ?w')"
        using routine_of_cong[of ?w' w, OF c] by (simp add: list_all_iff)
      moreover have "\<And>x. in_flight ?w' x = in_flight w x + (if x = r then 1 else 0)"
        using in_flight_update[OF i, of _ "Task r (Awaiting_extract False)"] ns by (simp add: in_flight_def)
      ultimately show ?thesis using w' fl Stream by (auto simp: url_exclusive_def)
    qed
  qed
qed


lemma download_finish_shape:
  assumes "tasks w ! i = Task r Awaiting_download"
  shows "tasks (download_finish w i out) = (tasks w)[i := Task r Returned]"
    and "cls (heap (download_finish w i out) x) = cls (heap w x)"
    and "is_downloading (heap (download_finish w i out) x) = (x \<noteq> r \<and> is_downloading (heap w x))"
  using assms
  by (simp_all add: download_finish_def for_each_future_def Let_def split: body_outcome.splits)

lemma url_exclusive_finish:
  assumes ex: "url_exclusive w" and i: "i < length (tasks w)"
  shows "url_exclusive (download_finish w i out)"
proof (cases "tasks w ! i")
  case (Task r st)
  show ?thesis
  proof (cases "st = Awaiting_download")
    case False
    then show ?thesis using ex Task by (cases st) (simp_all add: download_finish_def)
  next
    case True
    note aw = Task[unfolded True]
    let ?w' = "download_finish w i out"
    note sh = download_finish_shape[OF aw, where out = out]
    have all: "list_all (routine_of w) (tasks w)" using ex by (simp add: url_exclusive_def)
    have fl: "\<And>x. cls (heap w x) = URL \<Longrightarrow> in_flight w x = (if is_downloading (heap w x) then 1 else 0)"
      using ex by (simp add: url_exclusive_def)
    have "list_all (routine_of w) ((tasks w)[i := Task r Returned])"
      using list_all_update[OF all, of "Task r Returned" i] by simp
    then have typed: "list_all (routine_of ?w') (tasks ?w')"
      using routine_of_cong[of ?w' w] sh(1,2) by (simp add: list_all_iff)
    have upd: "in_flight ?w' x + (if x = r then 1 else 0) = in_flight w x" for x
      using in_flight_update[OF i, of x "Task r Returned"] aw sh(1) by (auto simp: in_flight_def)
    have "\<And>x. cls (heap w x) = URL \<Longrightarrow>
            in_flight ?w' x = (if is_downloading (heap ?w' x) then 1 else 0)"
    proof -
      fix x assume u: "cls (heap w x) = URL"
      show "in_flight ?w' x = (if is_downloading (heap ?w' x) then 1 else 0)"
        using upd[of x] fl[OF u] sh(3)[of x] by (cases "x = r") (auto split: if_splits)
    qed
    with typed sh(2) show ?thesis by (simp add: url_exclusive_def)
  qed
qed

lemma stream_resume_shape:
  assumes "tasks w ! i = Task r (Awaiting_extract fallback)"
  shows "\<exists>st. tasks (stream_resume d w i) = (tasks w)[i := Task r st] \<and> st \<noteq> Awaiting_download"
    and "cls (heap (stream_resume d w i) x) = cls (heap w x)"
    and "x \<noteq> r \<Longrightarrow> is_downloading (heap (stream_resume d w i) x) = is_downloading (heap w x)"
  using assms
  by (auto simp: stream_resume_def Let_def split: sum.splits)

lemma url_exclusive_resume:
  assumes ex: "url_exclusive w" and i: "i < length (tasks w)"
  shows "url_exclusive (stream_resume d w i)"
proof (cases "tasks w ! i")
  case (Task r st)
  show ?thesis
  proof (cases st)
    case (Awaiting_extract fallback)
    note aw = Task[unfolded Awaiting_extract]
    let ?w' = "stream_resume d w i"
    note sh = stream_resume_shape[OF aw, where d = d]
    from sh(1) obtain st' where t: "tasks ?w' = (tasks w)[i := Task r st']" and na: "st' \<noteq> Awaiting_download"
      by blast
    have all: "list_all (routine_of w) (tasks w)" using ex by (simp add: url_exclusive_def)
    have fl: "\<And>x. cls (heap w x) = URL \<Longrightarrow> in_flight w x = (if is_downloading (heap w x) then 1 else 0)"
      using ex by (simp add: url_exclusive_def)
    have "routine_of w (tasks w ! i)" using all i by (simp add: list_all_length)
    then have str: "cls (heap w r) = Stream" using aw by simp
    have "routine_of w (Task r st')" using str na by (cases st') simp_all
    then have "list_all (routine_of w) ((tasks w)[i := Task r st'])"
      using list_all_update[OF all] by simp
    then have typed: "list_all (routine_of ?w') (tasks ?w')"
      using routine_of_cong[of ?w' w] sh(2) t by (simp add: list_all_iff)
    have "\<And>x. cls (heap w x) = URL \<Longrightarrow>
            in_flight ?w' x = (if is_downloading (heap ?w' x) then 1 else 0)"
    proof -
      fix x assume u: "cls (heap w x) = URL"
      with str have ne: "x \<noteq> r" by auto
      have a: "\<not> in_routine x (Task r st')" "\<not> in_routine x (tasks w ! i)"
        using ne aw by (cases st'; simp)+
      have "in_flight ?w' x = in_flight w x"
        using in_flight_update[OF i, of x "Task r st'"] a t by (simp add: in_flight_def)
      then show "in_flight ?w' x = (if is_downloading (heap ?w' x) then 1 else 0)"
        using fl[OF u] sh(3)[OF ne] by simp
    qed
    with typed sh(2) show ?thesis by (simp add: url_exclusive_def)
  qed (use ex Task in \<open>simp_all add: stream_resume_def\<close>)
qed

lemma url_exclusive_step: "url_exclusive w \<Longrightarrow> url_exclusive (loop_step d w ev)"
  by (cases ev) (simp_all add: url_exclusive_start url_exclusive_finish url_exclusive_resume)

lemma url_exclusive_run: "url_exclusive w \<Longrightarrow> url_exclusive (loop_run d w evs)"
  unfolding loop_run_def by (induction evs arbitrary: w) (simp_all add: url_exclusive_step)

text \<open>
  So a URL entry never has two downloads under way: in a world with no task and no
  flag set, and after any readiness requests and steps of the loop from there.
\<close>

lemma url_exclusive_initial:
  "tasks w = [] \<Longrightarrow> (\<And>r. \<not> is_downloading (heap w r)) \<Longrightarrow> url_exclusive w"
  by (simp add: url_exclusive_def in_flight_def)

lemma url_at_most_one_in_flight:
  "url_exclusive w \<Longrightarrow> cls (heap w r) = URL \<Longrightarrow> in_flight w r \<le> 1"
  by (simp add: url_exclusive_def)

end
